theory Spec2Isabelle
  imports Main "HOL-Library.Multiset" "HOL-Library.List_Lexorder" "HOL-Library.Char_ord"
begin

section \<open>JavaScript values and objects\<close>

text \<open>
  The stores hold plain JavaScript objects. A value is one of the primitives, a \<open>Date\<close>
  (represented by the text that determines it: its ISO text, or the text it was parsed
  from) or an array; numbers are the integers. An object is a finite map from property
  names to values; a property that is absent reads as \<open>undefined\<close>.
\<close>

datatype jsval =
    JUndefined
  | JNull
  | JBool bool
  | JNum int
  | JStr string
  | JDate string
  | JArr "jsval list"

type_synonym obj = "string \<rightharpoonup> jsval"

text \<open>\<open>item[key]\<close>\<close>

definition fld :: "obj \<Rightarrow> string \<Rightarrow> jsval" where
  "fld item key = (case item key of None \<Rightarrow> JUndefined | Some v \<Rightarrow> v)"

text \<open>\<open>key in item\<close>\<close>

definition has_key :: "string \<Rightarrow> obj \<Rightarrow> bool" where
  "has_key key item = (item key \<noteq> None)"

text \<open>
  \<open>a === b\<close>, where \<open>a\<close> is read from a stored item: primitives compare by value, and an
  array or a \<open>Date\<close> inside a stored item is a fresh object, identical to no value the
  caller holds.
\<close>

definition strict_eq :: "jsval \<Rightarrow> jsval \<Rightarrow> bool" where
  "strict_eq a b = (case a of JArr _ \<Rightarrow> False | JDate _ \<Rightarrow> False | _ \<Rightarrow> a = b)"

text \<open>Truthiness, as used by \<open>||\<close> and \<open>if\<close>.\<close>

fun truthy :: "jsval \<Rightarrow> bool" where
  "truthy JUndefined = False"
| "truthy JNull = False"
| "truthy (JBool b) = b"
| "truthy (JNum n) = (n \<noteq> 0)"
| "truthy (JStr s) = (s \<noteq> [])"
| "truthy (JDate _) = True"
| "truthy (JArr _) = True"

text \<open>
  \<open>JSON.parse(JSON.stringify(x))\<close>: a \<open>Date\<close> becomes its ISO string, \<open>undefined\<close> inside an
  array becomes \<open>null\<close>, and a property whose value is \<open>undefined\<close> is dropped.
\<close>

fun jsonify_val :: "jsval \<Rightarrow> jsval" where
  "jsonify_val (JDate s) = JStr s"
| "jsonify_val (JArr vs) = JArr (map (\<lambda>v. if v = JUndefined then JNull else jsonify_val v) vs)"
| "jsonify_val v = v"

definition jsonify :: "obj \<Rightarrow> obj" where
  "jsonify item =
     (\<lambda>k. case item k of
            None \<Rightarrow> None
          | Some JUndefined \<Rightarrow> None
          | Some v \<Rightarrow> Some (jsonify_val v))"

text \<open>An identifier passed to the store has type \<open>string | number\<close>.\<close>

datatype ident = IdStr string | IdNum int

fun id_val :: "ident \<Rightarrow> jsval" where
  "id_val (IdStr s) = JStr s"
| "id_val (IdNum n) = JNum n"

section \<open>BaseStorageService\<close>

subsection \<open>Configuration, hooks and results\<close>

record TimestampFields =
  createdAt :: "string option"
  updatedAt :: "string option"

record StorageConfig =
  key_name :: string
  idField :: "string option"
  timestampFields :: "TimestampFields option"

text \<open>The constructor fills in the defaults for the entries the caller left out.\<close>

definition constructor :: "StorageConfig \<Rightarrow> StorageConfig" where
  "constructor config =
     config\<lparr>
       idField := (case idField config of None \<Rightarrow> Some ''id'' | Some f \<Rightarrow> Some f),
       timestampFields :=
         (case timestampFields config of
            None \<Rightarrow> Some \<lparr>createdAt = Some ''createdAt'', updatedAt = Some ''updatedAt''\<rparr>
          | Some t \<Rightarrow> Some t)\<rparr>"

definition getIdField :: "StorageConfig \<Rightarrow> string" where
  "getIdField config =
     (case idField config of
        None \<Rightarrow> ''id''
      | Some f \<Rightarrow> if f = [] then ''id'' else f)"

text \<open>
  What the runtime hands to one creation: the string \<open>generateId\<close> builds from
  \<open>Date.now()\<close> and \<open>Math.random()\<close>, and the two clock readings of \<open>addTimestamps\<close>
  (as ISO text).
\<close>

record env =
  fresh_id :: string
  now_created :: string
  now_updated :: string

definition addTimestamps :: "StorageConfig \<Rightarrow> string \<Rightarrow> string \<Rightarrow> obj \<Rightarrow> bool \<Rightarrow> obj" where
  "addTimestamps config now1 now2 item isNew =
     (let tf = (case timestampFields config of
                  None \<Rightarrow> \<lparr>createdAt = None, updatedAt = None\<rparr>
                | Some t \<Rightarrow> t);
          result = item;
          result = (case createdAt tf of
                      None \<Rightarrow> result
                    | Some c \<Rightarrow> if isNew \<and> c \<noteq> [] then result(c \<mapsto> JStr now1) else result);
          result = (case updatedAt tf of
                      None \<Rightarrow> result
                    | Some u \<Rightarrow> if u \<noteq> [] then result(u \<mapsto> JStr now2) else result)
      in result)"

text \<open>
  The \<open>validate\<close> hook is overridable and may read the collection (as the example
  services do), so it receives the collection as read at the start of the operation.
  It answers \<open>{success: true}\<close>, \<open>{success: false, error?}\<close>, or throws. The hooks
  \<open>afterCreate\<close>, \<open>afterUpdate\<close> and \<open>afterDelete\<close> are those of the base class, which do
  nothing.
\<close>

datatype validation = Valid | Invalid "string option" | Throws string

type_synonym validate_hook = "obj list \<Rightarrow> obj \<Rightarrow> validation"

definition validate_default :: validate_hook where
  "validate_default stored item = Valid"

record 'a StorageResult =
  success :: bool
  data :: "'a option"
  error :: "string option"

record 'a BulkStorageResult =
  success_b :: bool
  data_b :: "'a list option"
  errors :: "(int \<times> string) list option"

definition failure :: "string option \<Rightarrow> 'a StorageResult" where
  "failure e = \<lparr>success = False, data = None, error = e\<rparr>"

definition succeed :: "'a \<Rightarrow> 'a StorageResult" where
  "succeed x = \<lparr>success = True, data = Some x, error = None\<rparr>"

subsection \<open>The persisted collection\<close>

text \<open>
  The state of one service is the array last handed to \<open>AsyncStorage.setItem\<close> (the empty
  array before the first write). The medium is taken as reliable: \<open>getItem\<close> and
  \<open>setItem\<close> do not fail. Reading parses the stored JSON text.
\<close>

definition readStorage :: "obj list \<Rightarrow> obj list" where
  "readStorage st = map jsonify st"

definition writeStorage :: "obj list \<Rightarrow> obj list" where
  "writeStorage stored = stored"

subsection \<open>Filtering, ordering, pagination\<close>

text \<open>
  A \<open>where\<close> clause, or the criteria of \<open>deleteWhere\<close>, is a callback or an object. The
  callback is called on a record and returns a boolean, or throws: \<open>Inl\<close> carries the text
  of what it throws, as \<open>String(error)\<close> gives it.
\<close>

datatype whereClause = WhereFn "obj \<Rightarrow> string + bool" | WhereObj "(string \<times> jsval) list"

datatype sortOrder = Asc | Desc

record FilterOptions =
  whereOpt :: "whereClause option"
  orderBy :: "string option"
  order :: "sortOrder option"
  limit :: "int option"
  offset :: "int option"

text \<open>
  \<open>xs.slice(start, end)\<close>: a negative index counts from the end, and both ends are
  clamped to the array.
\<close>

definition clamp_index :: "nat \<Rightarrow> int \<Rightarrow> nat" where
  "clamp_index len i = (if i < 0 then nat (max (int len + i) 0) else min (nat i) len)"

definition slice :: "'a list \<Rightarrow> int \<Rightarrow> int option \<Rightarrow> 'a list" where
  "slice xs start end_opt =
     (let len = length xs;
          k = clamp_index len start;
          final = (case end_opt of None \<Rightarrow> len | Some e \<Rightarrow> clamp_index len e)
      in take (final - k) (drop k xs))"

text \<open>
  \<open>xs.sort(compareFn)\<close> is a stable sort. It is modelled by insertion sort: each element
  goes before the first later element it does not compare greater than.
\<close>

fun sort_insert :: "('a \<Rightarrow> 'a \<Rightarrow> int) \<Rightarrow> 'a \<Rightarrow> 'a list \<Rightarrow> 'a list" where
  "sort_insert cmp x [] = [x]"
| "sort_insert cmp x (y # ys) =
     (if cmp x y \<le> 0 then x # y # ys else y # sort_insert cmp x ys)"

definition array_sort :: "('a \<Rightarrow> 'a \<Rightarrow> int) \<Rightarrow> 'a list \<Rightarrow> 'a list" where
  "array_sort cmp xs = foldr (sort_insert cmp) xs []"

text \<open>
  The comparator of \<open>applyFilters\<close>. JavaScript's \<open>a < b\<close> on two property values is the
  parameter \<open>lt\<close>; \<open>a > b\<close> is \<open>lt b a\<close>.
\<close>

definition compareFn ::
  "(jsval \<Rightarrow> jsval \<Rightarrow> bool) \<Rightarrow> string \<Rightarrow> sortOrder option \<Rightarrow> obj \<Rightarrow> obj \<Rightarrow> int" where
  "compareFn lt field ord a b =
     (let aVal = fld a field;
          bVal = fld b field;
          sign = (if ord = Some Desc then -1 else 1)
      in if lt aVal bVal then -1 * sign
         else if lt bVal aVal then 1 * sign
         else 0)"

text \<open>
  \<open>xs.filter(callback)\<close> calls the callback on the elements in order and keeps those it
  returns true for; what the callback throws ends the call.
\<close>

fun array_filter :: "('a \<Rightarrow> string + bool) \<Rightarrow> 'a list \<Rightarrow> string + 'a list" where
  "array_filter callback [] = Inr []"
| "array_filter callback (x # xs) =
     (case callback x of
        Inl e \<Rightarrow> Inl e
      | Inr keep \<Rightarrow>
          (case array_filter callback xs of
             Inl e \<Rightarrow> Inl e
           | Inr ys \<Rightarrow> Inr (if keep then x # ys else ys)))"

text \<open>
  The test of one record: the callback's answer, or whether every entry of the object is
  the record's property (\<open>===\<close>).
\<close>

definition matches :: "whereClause \<Rightarrow> obj \<Rightarrow> string + bool" where
  "matches w item =
     (case w of
        WhereFn p \<Rightarrow> p item
      | WhereObj entries \<Rightarrow> Inr (list_all (\<lambda>(key, v). strict_eq (fld item key) v) entries))"

text \<open>\<open>applyFilters\<close> returns the list, or passes on what the \<open>where\<close> callback throws.\<close>

definition applyFilters ::
  "(jsval \<Rightarrow> jsval \<Rightarrow> bool) \<Rightarrow> obj list \<Rightarrow> FilterOptions \<Rightarrow> string + obj list" where
  "applyFilters lt stored options =
     (case (case whereOpt options of
              None \<Rightarrow> Inr stored
            | Some w \<Rightarrow> array_filter (matches w) stored) of
        Inl e \<Rightarrow> Inl e
      | Inr filtered \<Rightarrow>
          (let result = filtered;
               result = (case orderBy options of
                           None \<Rightarrow> result
                         | Some f \<Rightarrow>
                             if f \<noteq> [] then array_sort (compareFn lt f (order options)) result
                             else result);
               result = (case offset options of
                           None \<Rightarrow> result
                         | Some off \<Rightarrow> slice result off None);
               result = (case limit options of
                           None \<Rightarrow> result
                         | Some k \<Rightarrow> slice result 0 (Some k))
           in Inr result))"

subsection \<open>Reads\<close>

text \<open>\<open>getAll\<close> catches what \<open>applyFilters\<close> throws and answers the empty list; \<open>count\<close>, 0.\<close>

definition getAll ::
  "(jsval \<Rightarrow> jsval \<Rightarrow> bool) \<Rightarrow> FilterOptions option \<Rightarrow> obj list \<Rightarrow> obj list" where
  "getAll lt options st =
     (let stored = readStorage st
      in case options of
           None \<Rightarrow> stored
         | Some opts \<Rightarrow>
             (case applyFilters lt stored opts of
                Inl e \<Rightarrow> []
              | Inr result \<Rightarrow> result))"

definition getById :: "StorageConfig \<Rightarrow> ident \<Rightarrow> obj list \<Rightarrow> obj option" where
  "getById config rid st =
     (let stored = readStorage st; idf = getIdField config
      in find (\<lambda>item. strict_eq (fld item idf) (id_val rid)) stored)"

definition count_items ::
  "(jsval \<Rightarrow> jsval \<Rightarrow> bool) \<Rightarrow> FilterOptions option \<Rightarrow> obj list \<Rightarrow> nat" where
  "count_items lt options st =
     (let stored = readStorage st
      in case (case options of
                 None \<Rightarrow> Inr stored
               | Some opts \<Rightarrow> applyFilters lt stored opts) of
           Inl e \<Rightarrow> 0
         | Inr filteredData \<Rightarrow> length filteredData)"

definition exists :: "StorageConfig \<Rightarrow> ident \<Rightarrow> obj list \<Rightarrow> bool" where
  "exists config rid st = (getById config rid st \<noteq> None)"

subsection \<open>Create\<close>

text \<open>\<open>findIndex\<close> answers \<open>-1\<close> when no element matches: here \<open>None\<close>.\<close>

fun findIndex :: "('a \<Rightarrow> bool) \<Rightarrow> 'a list \<Rightarrow> nat option" where
  "findIndex p [] = None"
| "findIndex p (x # xs) = (if p x then Some 0 else map_option Suc (findIndex p xs))"

text \<open>
  The first steps of \<open>create\<close>, repeated for each item by \<open>createBulk\<close>: copy the item,
  give it a generated identifier unless it has the identifier property, stamp it.
\<close>

definition newItemOf :: "StorageConfig \<Rightarrow> env \<Rightarrow> obj \<Rightarrow> obj" where
  "newItemOf config e item =
     (let idf = getIdField config;
          newItem = item;
          newItem = (if \<not> has_key idf newItem then newItem(idf \<mapsto> JStr (fresh_id e)) else newItem)
      in addTimestamps config (now_created e) (now_updated e) newItem True)"

definition create ::
  "StorageConfig \<Rightarrow> validate_hook \<Rightarrow> env \<Rightarrow> obj \<Rightarrow> obj list \<Rightarrow> obj list \<times> obj StorageResult" where
  "create config validate e item st =
     (let stored = readStorage st;
          newItem = newItemOf config e item
      in case validate stored newItem of
           Throws msg \<Rightarrow> (st, failure (Some msg))
         | Invalid err \<Rightarrow> (st, failure err)
         | Valid \<Rightarrow> (writeStorage (stored @ [newItem]), succeed newItem))"

text \<open>\<open>validation.error || 'Validation failed'\<close>\<close>

definition error_or_default :: "string option \<Rightarrow> string" where
  "error_or_default err =
     (case err of
        None \<Rightarrow> ''Validation failed''
      | Some msg \<Rightarrow> if msg = [] then ''Validation failed'' else msg)"

text \<open>
  The loop of \<open>createBulk\<close> over the items from index \<open>i\<close> on, with the two accumulators
  \<open>newItems\<close> and \<open>errors\<close>; \<open>envs i\<close> is what the runtime hands to iteration \<open>i\<close>.
\<close>

fun createBulk_loop ::
  "StorageConfig \<Rightarrow> validate_hook \<Rightarrow> (nat \<Rightarrow> env) \<Rightarrow> obj list \<Rightarrow> nat \<Rightarrow> obj list \<Rightarrow>
     obj list \<times> (int \<times> string) list \<Rightarrow> obj list \<times> (int \<times> string) list" where
  "createBulk_loop config validate envs stored i [] acc = acc"
| "createBulk_loop config validate envs stored i (item # rest) (newItems, errs) =
     (let newItem = newItemOf config (envs i) item
      in case validate stored newItem of
           Throws msg \<Rightarrow>
             createBulk_loop config validate envs stored (Suc i) rest
               (newItems, errs @ [(int i, msg)])
         | Invalid err \<Rightarrow>
             createBulk_loop config validate envs stored (Suc i) rest
               (newItems, errs @ [(int i, error_or_default err)])
         | Valid \<Rightarrow>
             createBulk_loop config validate envs stored (Suc i) rest
               (newItems @ [newItem], errs))"

definition createBulk ::
  "StorageConfig \<Rightarrow> validate_hook \<Rightarrow> (nat \<Rightarrow> env) \<Rightarrow> obj list \<Rightarrow> obj list \<Rightarrow>
     obj list \<times> obj BulkStorageResult" where
  "createBulk config validate envs items st =
     (let stored = readStorage st;
          (newItems, errs) = createBulk_loop config validate envs stored 0 items ([], []);
          st' = (if length newItems > 0 then writeStorage (stored @ newItems) else st)
      in (st', \<lparr>success_b = (length errs = 0),
                data_b = Some newItems,
                errors = (if length errs > 0 then Some errs else None)\<rparr>))"

subsection \<open>Update\<close>

definition put ::
  "StorageConfig \<Rightarrow> validate_hook \<Rightarrow> string \<Rightarrow> ident \<Rightarrow> obj \<Rightarrow> obj list \<Rightarrow>
     obj list \<times> obj StorageResult" where
  "put config validate now rid item st =
     (let stored = readStorage st;
          idf = getIdField config
      in case findIndex (\<lambda>i. strict_eq (fld i idf) (id_val rid)) stored of
           None \<Rightarrow> (st, failure (Some ''Item not found''))
         | Some index \<Rightarrow>
             (let updatedItem = item;
                  updatedItem = updatedItem(idf \<mapsto> id_val rid);
                  updatedItem = addTimestamps config now now updatedItem False
              in case validate stored updatedItem of
                   Throws msg \<Rightarrow> (st, failure (Some msg))
                 | Invalid err \<Rightarrow> (st, failure err)
                 | Valid \<Rightarrow> (writeStorage (stored[index := updatedItem]), succeed updatedItem)))"

text \<open>\<open>{...a, ...b}\<close> is \<open>a ++ b\<close>: the properties of \<open>b\<close> win.\<close>

definition patch ::
  "StorageConfig \<Rightarrow> validate_hook \<Rightarrow> string \<Rightarrow> ident \<Rightarrow> obj \<Rightarrow> obj list \<Rightarrow>
     obj list \<times> obj StorageResult" where
  "patch config validate now rid updates st =
     (let stored = readStorage st;
          idf = getIdField config
      in case findIndex (\<lambda>i. strict_eq (fld i idf) (id_val rid)) stored of
           None \<Rightarrow> (st, failure (Some ''Item not found''))
         | Some index \<Rightarrow>
             (let updatedItem = (stored ! index) ++ updates;
                  updatedItem = updatedItem(idf \<mapsto> id_val rid);
                  updatedItem = addTimestamps config now now updatedItem False
              in case validate stored updatedItem of
                   Throws msg \<Rightarrow> (st, failure (Some msg))
                 | Invalid err \<Rightarrow> (st, failure err)
                 | Valid \<Rightarrow> (writeStorage (stored[index := updatedItem]), succeed updatedItem)))"

datatype UpdateType = PUT | PATCH

definition update ::
  "StorageConfig \<Rightarrow> validate_hook \<Rightarrow> string \<Rightarrow> ident \<Rightarrow> obj \<Rightarrow> UpdateType \<Rightarrow> obj list \<Rightarrow>
     obj list \<times> obj StorageResult" where
  "update config validate now rid updates type st =
     (if type = PUT then put config validate now rid updates st
      else patch config validate now rid updates st)"

subsection \<open>Delete\<close>

definition delete :: "StorageConfig \<Rightarrow> ident \<Rightarrow> obj list \<Rightarrow> obj list \<times> bool StorageResult" where
  "delete config rid st =
     (let stored = readStorage st;
          idf = getIdField config
      in case findIndex (\<lambda>i. strict_eq (fld i idf) (id_val rid)) stored of
           None \<Rightarrow> (st, failure (Some ''Item not found''))
         | Some index \<Rightarrow>
             (writeStorage (take index stored @ drop (Suc index) stored), succeed True))"

text \<open>\<open>ids.includes(itemId)\<close>\<close>

definition ids_includes :: "ident list \<Rightarrow> jsval \<Rightarrow> bool" where
  "ids_includes ids itemId = list_ex (\<lambda>i. id_val i = itemId) ids"

definition deleteBulk ::
  "StorageConfig \<Rightarrow> ident list \<Rightarrow> obj list \<Rightarrow> obj list \<times> bool BulkStorageResult" where
  "deleteBulk config ids st =
     (let stored = readStorage st;
          idf = getIdField config;
          remainingData = filter (\<lambda>item. \<not> ids_includes ids (fld item idf)) stored
      in (writeStorage remainingData,
          \<lparr>success_b = True, data_b = Some [True], errors = None\<rparr>))"

text \<open>
  The filter of \<open>deleteWhere\<close>: it keeps the records the criteria does not hold of and
  counts the others; what the criteria callback throws ends it.
\<close>

fun deleteWhere_filter :: "whereClause \<Rightarrow> obj list \<Rightarrow> string + (obj list \<times> nat)" where
  "deleteWhere_filter criteria [] = Inr ([], 0)"
| "deleteWhere_filter criteria (item # rest) =
     (case matches criteria item of
        Inl e \<Rightarrow> Inl e
      | Inr shouldDelete \<Rightarrow>
          (case deleteWhere_filter criteria rest of
             Inl e \<Rightarrow> Inl e
           | Inr (remainingData, deletedCount) \<Rightarrow>
               Inr (if shouldDelete then (remainingData, Suc deletedCount)
                    else (item # remainingData, deletedCount))))"

text \<open>
  \<open>deleteWhere\<close> writes what the filter kept. When the criteria callback throws, the
  \<open>catch\<close> answers the failure with the text thrown, and nothing was written.
\<close>

definition deleteWhere :: "whereClause \<Rightarrow> obj list \<Rightarrow> obj list \<times> nat StorageResult" where
  "deleteWhere criteria st =
     (let stored = readStorage st
      in case deleteWhere_filter criteria stored of
           Inl e \<Rightarrow> (st, failure (Some e))
         | Inr (remainingData, deletedCount) \<Rightarrow>
             (writeStorage remainingData, succeed deletedCount))"

definition clear :: "obj list \<Rightarrow> obj list \<times> bool StorageResult" where
  "clear st = (writeStorage [], succeed True)"

section \<open>StorageService (web): IndexedDB object stores\<close>

text \<open>
  An object store with key path \<open>id\<close> holds at most one record per key and lists its
  records in key order. The keys modelled are the numbers and the strings, numbers first
  (the identifiers the application makes are strings). A value whose \<open>id\<close> is no key
  (\<open>undefined\<close>, \<open>null\<close>, a boolean) is rejected by \<open>put\<close>, and \<open>dbHelper\<close> logs the error
  and goes on; the model treats an \<open>id\<close> that is a \<open>Date\<close> or an array in the same way.
\<close>

type_synonym objectStore = "(ident \<times> obj) list"

fun key_less :: "ident \<Rightarrow> ident \<Rightarrow> bool" where
  "key_less (IdNum a) (IdNum b) = (a < b)"
| "key_less (IdNum a) (IdStr b) = True"
| "key_less (IdStr a) (IdNum b) = False"
| "key_less (IdStr a) (IdStr b) = (a < b)"

fun idb_key :: "jsval \<Rightarrow> ident option" where
  "idb_key (JStr s) = Some (IdStr s)"
| "idb_key (JNum n) = Some (IdNum n)"
| "idb_key v = None"

fun store_put :: "ident \<Rightarrow> obj \<Rightarrow> objectStore \<Rightarrow> objectStore" where
  "store_put k v [] = [(k, v)]"
| "store_put k v ((k', v') # rest) =
     (if k = k' then (k, v) # rest
      else if key_less k k' then (k, v) # (k', v') # rest
      else (k', v') # store_put k v rest)"

definition db_put :: "obj \<Rightarrow> objectStore \<Rightarrow> objectStore" where
  "db_put v store =
     (case idb_key (fld v ''id'') of
        None \<Rightarrow> store
      | Some k \<Rightarrow> store_put k v store)"

definition db_get :: "objectStore \<Rightarrow> string \<Rightarrow> obj option" where
  "db_get store key = map_of store (IdStr key)"

definition db_getAll :: "objectStore \<Rightarrow> obj list" where
  "db_getAll store = map snd store"

definition db_getByIndex :: "objectStore \<Rightarrow> string \<Rightarrow> string \<Rightarrow> obj list" where
  "db_getByIndex store indexName v = filter (\<lambda>r. r indexName = Some (JStr v)) (map snd store)"

record webdb =
  TASKS :: objectStore
  EVIDENCE :: objectStore

definition getTasks :: "string option \<Rightarrow> webdb \<Rightarrow> obj list" where
  "getTasks projectId db =
     (case projectId of
        None \<Rightarrow> db_getAll (TASKS db)
      | Some p \<Rightarrow> if p \<noteq> [] then db_getByIndex (TASKS db) ''projectId'' p
                  else db_getAll (TASKS db))"

definition addTask :: "obj \<Rightarrow> webdb \<Rightarrow> webdb" where
  "addTask task db = db\<lparr>TASKS := db_put task (TASKS db)\<rparr>"

text \<open>\<open>now\<close> is the \<open>Date\<close> the call creates.\<close>

definition updateTask :: "string \<Rightarrow> string \<Rightarrow> obj \<Rightarrow> webdb \<Rightarrow> webdb" where
  "updateTask now taskId updates db =
     (case db_get (TASKS db) taskId of
        None \<Rightarrow> db
      | Some task \<Rightarrow>
          (let updatedTask = (task ++ updates)(''updatedAt'' \<mapsto> JDate now)
           in db\<lparr>TASKS := db_put updatedTask (TASKS db)\<rparr>))"

definition getEvidence :: "string \<Rightarrow> webdb \<Rightarrow> obj list" where
  "getEvidence taskId db = db_getByIndex (EVIDENCE db) ''taskId'' taskId"

definition addEvidence :: "obj \<Rightarrow> webdb \<Rightarrow> webdb" where
  "addEvidence ev db = db\<lparr>EVIDENCE := db_put ev (EVIDENCE db)\<rparr>"

definition getAllEvidence :: "webdb \<Rightarrow> obj list" where
  "getAllEvidence db = db_getAll (EVIDENCE db)"

definition updateEvidence :: "string \<Rightarrow> obj \<Rightarrow> webdb \<Rightarrow> webdb" where
  "updateEvidence evidenceId updates db =
     (case db_get (EVIDENCE db) evidenceId of
        None \<Rightarrow> db
      | Some ev \<Rightarrow>
          (let updatedEvidence = ev ++ updates
           in db\<lparr>EVIDENCE := db_put updatedEvidence (EVIDENCE db)\<rparr>))"

text \<open>The predicate both filters of \<open>getItemsNeedingSync\<close> apply.\<close>

definition selectedForSync :: "obj \<Rightarrow> bool" where
  "selectedForSync item =
     (truthy (fld item ''needsSync'')
      \<or> strict_eq (fld item ''syncStatus'') (JStr ''pending'')
      \<or> strict_eq (fld item ''syncStatus'') (JStr ''failed''))"

definition getItemsNeedingSync :: "webdb \<Rightarrow> obj list \<times> obj list" where
  "getItemsNeedingSync db =
     (let allTasks = getTasks None db;
          allEvidence = getAllEvidence db;
          pendingTasks = filter selectedForSync allTasks;
          pendingEvidence = filter selectedForSync allEvidence
      in (pendingTasks, pendingEvidence))"

section \<open>The project detail screen\<close>

text \<open>
  The part of the screen's state its handlers read and write; alerts, modal flags and
  the progress figure are presentation and are left out.
\<close>

record NewTask =
  title :: string
  description :: string
  dueDate :: string

record screen =
  projectId :: string
  tasks :: "obj list"
  newTask :: NewTask
  isConnected :: bool
  selectedTaskId :: "string option"

record UploadedFile =
  file_name :: string
  file_uri :: string
  file_type :: string

definition handleToggleComplete :: "string \<Rightarrow> string \<Rightarrow> screen \<times> webdb \<Rightarrow> screen \<times> webdb" where
  "handleToggleComplete now taskId sd =
     (let s = fst sd; db = snd sd
      in case find (\<lambda>t. strict_eq (fld t ''id'') (JStr taskId)) (tasks s) of
           None \<Rightarrow> (s, db)
         | Some task \<Rightarrow>
             (let newStatus =
                    (if strict_eq (fld task ''status'') (JStr ''completed'')
                     then ''pending'' else ''completed'');
                  db' = updateTask now taskId
                          [''status'' \<mapsto> JStr newStatus,
                           ''isOffline'' \<mapsto> JBool (\<not> isConnected s),
                           ''needsSync'' \<mapsto> JBool (\<not> isConnected s)] db;
                  s' = s\<lparr>tasks :=
                           map (\<lambda>t. if strict_eq (fld t ''id'') (JStr taskId)
                                     then t(''status'' \<mapsto> JStr newStatus) else t) (tasks s)\<rparr>
              in (s', db')))"

text \<open>
  In \<open>handleAddTask\<close> the identifier is \<open>Date.now().toString()\<close> (\<open>fresh_id\<close>); in
  \<open>handleFileSelect\<close> it is that text after \<open>evidence-\<close>. \<open>String.prototype.trim\<close> is the
  parameter \<open>trim\<close>; the handler returns at once when the trimmed title is empty.
\<close>

definition handleAddTask ::
  "(string \<Rightarrow> string) \<Rightarrow> env \<Rightarrow> screen \<times> webdb \<Rightarrow> screen \<times> webdb" where
  "handleAddTask trim e sd =
     (let s = fst sd; db = snd sd
      in if trim (title (newTask s)) = [] then (s, db)
         else
           (let task =
                  [''id'' \<mapsto> JStr (fresh_id e),
                   ''projectId'' \<mapsto> JStr (projectId s),
                   ''title'' \<mapsto> JStr (title (newTask s)),
                   ''description'' \<mapsto> JStr (description (newTask s)),
                   ''dueDate'' \<mapsto> (if dueDate (newTask s) \<noteq> [] then JDate (dueDate (newTask s))
                                    else JUndefined),
                   ''status'' \<mapsto> JStr ''pending'',
                   ''evidence'' \<mapsto> JArr [],
                   ''createdAt'' \<mapsto> JDate (now_created e),
                   ''updatedAt'' \<mapsto> JDate (now_updated e),
                   ''isOffline'' \<mapsto> JBool (\<not> isConnected s),
                   ''needsSync'' \<mapsto> JBool (\<not> isConnected s)];
                db' = addTask task db;
                s' = s\<lparr>tasks := tasks s @ [task],
                        newTask := \<lparr>title = [], description = [], dueDate = []\<rparr>\<rparr>
            in (s', db')))"

text \<open>
  \<open>handleFileSelect\<close> ends by reloading the screen's tasks from the store, which replaces
  the list it patched just before.
\<close>

definition handleFileSelect :: "env \<Rightarrow> UploadedFile \<Rightarrow> screen \<times> webdb \<Rightarrow> screen \<times> webdb" where
  "handleFileSelect e file sd =
     (let s = fst sd; db = snd sd
      in case selectedTaskId s of
           None \<Rightarrow> (s, db)
         | Some taskId \<Rightarrow>
             if taskId = [] then (s, db)
             else
               (let ev =
                      [''id'' \<mapsto> JStr (''evidence-'' @ fresh_id e),
                       ''taskId'' \<mapsto> JStr taskId,
                       ''type'' \<mapsto> JStr (if take 6 (file_type file) = ''image/''
                                          then ''photo'' else ''document''),
                       ''fileName'' \<mapsto> JStr (file_name file),
                       ''filePath'' \<mapsto> JStr (file_uri file),
                       ''uploadedAt'' \<mapsto> JDate (now_created e),
                       ''isOffline'' \<mapsto> JBool (\<not> isConnected s),
                       ''needsSync'' \<mapsto> JBool (\<not> isConnected s),
                       ''syncStatus'' \<mapsto> JStr ''pending''];
                    db' = addEvidence ev db;
                    s' = s\<lparr>tasks := getTasks (Some (projectId s)) db'\<rparr>
                in (s', db')))"

section \<open>Sync-status updates\<close>

text \<open>
  Modelled from the spec: \<open>SyncService\<close>, which applies the sync-status transitions, is not
  among the sources. These are the updates it hands to \<open>updateTask\<close> and \<open>updateEvidence\<close>
  according to section 4.2 of the specification: a selected record becomes \<open>syncing\<close>; on
  success it becomes \<open>synced\<close> with \<open>needsSync\<close> false, \<open>lastSyncedAt\<close> set and \<open>syncError\<close>
  cleared; on failure it becomes \<open>failed\<close> with the reason in \<open>syncError\<close>, and \<open>needsSync\<close>
  is left as it is.
\<close>

datatype syncUpdate = MarkSyncing | MarkSynced string | MarkFailed string

fun syncPayload :: "syncUpdate \<Rightarrow> obj" where
  "syncPayload MarkSyncing = [''syncStatus'' \<mapsto> JStr ''syncing'']"
| "syncPayload (MarkSynced now) =
     [''syncStatus'' \<mapsto> JStr ''synced'',
      ''needsSync'' \<mapsto> JBool False,
      ''lastSyncedAt'' \<mapsto> JDate now,
      ''syncError'' \<mapsto> JUndefined]"
| "syncPayload (MarkFailed reason) =
     [''syncStatus'' \<mapsto> JStr ''failed'',
      ''syncError'' \<mapsto> JStr reason]"

text \<open>
  Modelled from the spec: the sync-status updates among the operations below. An operation
  of the system is one of the three handlers of the screen or, following section 4.3 of
  the specification, a sync-status update of a task or of an evidence record that the
  working set selects (any other record is left alone).
\<close>

datatype action =
    AddTask env
  | ToggleComplete string string
  | AddEvidence env UploadedFile
  | SyncTask string string syncUpdate
  | SyncEvidence string syncUpdate

fun local_edit :: "action \<Rightarrow> bool" where
  "local_edit (AddTask e) = True"
| "local_edit (ToggleComplete now taskId) = True"
| "local_edit (AddEvidence e file) = True"
| "local_edit (SyncTask now taskId u) = False"
| "local_edit (SyncEvidence evidenceId u) = False"

fun step :: "(string \<Rightarrow> string) \<Rightarrow> action \<Rightarrow> screen \<times> webdb \<Rightarrow> screen \<times> webdb" where
  "step trim (AddTask e) sd = handleAddTask trim e sd"
| "step trim (ToggleComplete now taskId) sd = handleToggleComplete now taskId sd"
| "step trim (AddEvidence e file) sd = handleFileSelect e file sd"
| "step trim (SyncTask now taskId u) sd =
     (case db_get (TASKS (snd sd)) taskId of
        None \<Rightarrow> sd
      | Some task \<Rightarrow>
          if selectedForSync task then (fst sd, updateTask now taskId (syncPayload u) (snd sd))
          else sd)"
| "step trim (SyncEvidence evidenceId u) sd =
     (case db_get (EVIDENCE (snd sd)) evidenceId of
        None \<Rightarrow> sd
      | Some ev \<Rightarrow>
          if selectedForSync ev then (fst sd, updateEvidence evidenceId (syncPayload u) (snd sd))
          else sd)"

section \<open>Vocabulary of the properties\<close>

text \<open>
  A configuration whose timestamp properties are other properties than the identifier,
  as in the default configuration and in every service of the repository.
\<close>

definition timestamps_apart :: "StorageConfig \<Rightarrow> bool" where
  "timestamps_apart config =
     (case timestampFields config of
        None \<Rightarrow> True
      | Some tf \<Rightarrow> createdAt tf \<noteq> Some (getIdField config)
                 \<and> updatedAt tf \<noteq> Some (getIdField config))"

text \<open>
  For the updates: a property the configuration leaves alone (neither the identifier nor
  the \<open>updatedAt\<close> stamp), and the value of a property of a record that was looked up.
\<close>

definition plain_field :: "StorageConfig \<Rightarrow> string \<Rightarrow> bool" where
  "plain_field config key =
     (key \<noteq> getIdField config
      \<and> (case timestampFields config of
            None \<Rightarrow> True
          | Some tf \<Rightarrow> updatedAt tf \<noteq> Some key))"

definition stored_field :: "string \<Rightarrow> obj option \<Rightarrow> jsval option" where
  "stored_field key r = map_option (\<lambda>t. fld t key) r"

text \<open>
  For the identifiers: the identifiers of the stored records, in store order; and the
  identifier a created record is stored with (the caller's if the item has the
  identifier property, otherwise the generated one).
\<close>

definition stored_ids :: "StorageConfig \<Rightarrow> obj list \<Rightarrow> jsval list" where
  "stored_ids config st = map (\<lambda>r. fld r (getIdField config)) (readStorage st)"

definition new_id :: "StorageConfig \<Rightarrow> env \<Rightarrow> obj \<Rightarrow> jsval" where
  "new_id config e item =
     jsonify_val (if has_key (getIdField config) item then fld item (getIdField config)
                  else JStr (fresh_id e))"

text \<open>
  For \<open>createBulk\<close>: an input item paired with its index; what the loop makes of it; whether
  the hook accepts that; and the error entry the loop records when it does not.
\<close>

definition prepared :: "StorageConfig \<Rightarrow> (nat \<Rightarrow> env) \<Rightarrow> nat \<times> obj \<Rightarrow> obj" where
  "prepared config envs p = newItemOf config (envs (fst p)) (snd p)"

definition accepted :: "StorageConfig \<Rightarrow> validate_hook \<Rightarrow> (nat \<Rightarrow> env) \<Rightarrow> obj list \<Rightarrow> nat \<times> obj \<Rightarrow> bool" where
  "accepted config validate envs stored p = (validate stored (prepared config envs p) = Valid)"

definition rejection :: "StorageConfig \<Rightarrow> validate_hook \<Rightarrow> (nat \<Rightarrow> env) \<Rightarrow> obj list \<Rightarrow> nat \<times> obj \<Rightarrow> int \<times> string" where
  "rejection config validate envs stored p =
     (int (fst p),
      case validate stored (prepared config envs p) of
        Throws msg \<Rightarrow> msg
      | Invalid err \<Rightarrow> error_or_default err
      | Valid \<Rightarrow> [])"



definition returning :: "(obj \<Rightarrow> bool) \<Rightarrow> obj \<Rightarrow> string + bool" where
  "returning q item = Inr (q item)"

text \<open>
  For the sync working set: a dirty record in the words of the glossary (\<open>needsSync\<close> true,
  or \<open>syncStatus\<close> pending or failed); and a record whose \<open>needsSync\<close> is a boolean or
  absent, as the record types have it.
\<close>

definition dirty :: "obj \<Rightarrow> bool" where
  "dirty r =
     (fld r ''needsSync'' = JBool True
      \<or> fld r ''syncStatus'' = JStr ''pending''
      \<or> fld r ''syncStatus'' = JStr ''failed'')"

definition needsSync_boolean :: "obj \<Rightarrow> bool" where
  "needsSync_boolean r =
     (case fld r ''needsSync'' of JBool b \<Rightarrow> True | JUndefined \<Rightarrow> True | _ \<Rightarrow> False)"

text \<open>
  For the sync fields: the implication between \<open>needsSync\<close> and \<open>syncStatus\<close> on one record,
  and on every record of the two stores.
\<close>

definition sync_consistent :: "obj \<Rightarrow> bool" where
  "sync_consistent r =
     (fld r ''needsSync'' = JBool False \<longrightarrow> fld r ''syncStatus'' = JStr ''synced'')"

definition db_consistent :: "webdb \<Rightarrow> bool" where
  "db_consistent db =
     (list_all sync_consistent (getTasks None db) \<and> list_all sync_consistent (getAllEvidence db))"

section \<open>Sample data\<close>

text \<open>
  Records of \<open>SampleDataGenerator\<close>, used as concrete inputs: a pending, a synced and a
  failed task, a pending and a synced evidence.
\<close>

definition sampleTask1 :: obj where
  "sampleTask1 =
     [''id'' \<mapsto> JStr ''task-1'',
      ''projectId'' \<mapsto> JStr ''1'',
      ''title'' \<mapsto> JStr ''Complete project documentation'',
      ''description'' \<mapsto> JStr ''Write comprehensive documentation for the project'',
      ''status'' \<mapsto> JStr ''pending'',
      ''createdAt'' \<mapsto> JDate ''2025-01-01T10:00:00.000Z'',
      ''updatedAt'' \<mapsto> JDate ''2025-01-01T10:00:00.000Z'',
      ''needsSync'' \<mapsto> JBool True,
      ''syncStatus'' \<mapsto> JStr ''pending'']"

definition sampleTask2 :: obj where
  "sampleTask2 =
     [''id'' \<mapsto> JStr ''task-2'',
      ''projectId'' \<mapsto> JStr ''2'',
      ''title'' \<mapsto> JStr ''Submit final report'',
      ''description'' \<mapsto> JStr ''Prepare and submit the final project report'',
      ''status'' \<mapsto> JStr ''completed'',
      ''createdAt'' \<mapsto> JDate ''2025-01-01T10:00:00.000Z'',
      ''updatedAt'' \<mapsto> JDate ''2025-01-01T10:00:00.000Z'',
      ''needsSync'' \<mapsto> JBool False,
      ''syncStatus'' \<mapsto> JStr ''synced'',
      ''lastSyncedAt'' \<mapsto> JDate ''2025-01-01T09:00:00.000Z'']"

definition sampleTask3 :: obj where
  "sampleTask3 =
     [''id'' \<mapsto> JStr ''task-3'',
      ''projectId'' \<mapsto> JStr ''3'',
      ''title'' \<mapsto> JStr ''Review code changes'',
      ''description'' \<mapsto> JStr ''Review and approve pending code changes'',
      ''status'' \<mapsto> JStr ''pending'',
      ''createdAt'' \<mapsto> JDate ''2025-01-01T10:00:00.000Z'',
      ''updatedAt'' \<mapsto> JDate ''2025-01-01T10:00:00.000Z'',
      ''needsSync'' \<mapsto> JBool True,
      ''syncStatus'' \<mapsto> JStr ''failed'',
      ''syncError'' \<mapsto> JStr ''Network timeout'']"

definition sampleEvidence1 :: obj where
  "sampleEvidence1 =
     [''id'' \<mapsto> JStr ''evidence-1'',
      ''taskId'' \<mapsto> JStr ''task-1'',
      ''type'' \<mapsto> JStr ''photo'',
      ''fileName'' \<mapsto> JStr ''project-screenshot.jpg'',
      ''filePath'' \<mapsto> JStr ''/storage/photos/screenshot.jpg'',
      ''uploadedAt'' \<mapsto> JDate ''2025-01-01T10:00:00.000Z'',
      ''needsSync'' \<mapsto> JBool True,
      ''syncStatus'' \<mapsto> JStr ''pending'']"

definition sampleEvidence2 :: obj where
  "sampleEvidence2 =
     [''id'' \<mapsto> JStr ''evidence-2'',
      ''taskId'' \<mapsto> JStr ''task-2'',
      ''type'' \<mapsto> JStr ''document'',
      ''fileName'' \<mapsto> JStr ''final-report.pdf'',
      ''filePath'' \<mapsto> JStr ''/storage/documents/report.pdf'',
      ''uploadedAt'' \<mapsto> JDate ''2025-01-01T10:00:00.000Z'',
      ''needsSync'' \<mapsto> JBool False,
      ''syncStatus'' \<mapsto> JStr ''synced'',
      ''lastSyncedAt'' \<mapsto> JDate ''2025-01-01T08:00:00.000Z'']"

definition sampleStore :: "obj list" where
  "sampleStore = [sampleTask1, sampleTask2, sampleTask3]"

definition sampleConfig :: StorageConfig where
  "sampleConfig = constructor \<lparr>key_name = ''tasks'', idField = None, timestampFields = None\<rparr>"

definition sampleEnv :: env where
  "sampleEnv = \<lparr>fresh_id = ''1735725600000_k3x9q2m1z'',
                now_created = ''2025-01-01T10:00:00.000Z'',
                now_updated = ''2025-01-01T10:00:00.001Z''\<rparr>"

text \<open>A sample hook: it requires a name (\<open>!item.name\<close> rejects the item).\<close>

definition validateName :: validate_hook where
  "validateName stored item =
     (if \<not> truthy (fld item ''name'') then Invalid (Some ''Project name is required'')
      else Valid)"

definition sampleProjects :: "obj list" where
  "sampleProjects =
     [[''name'' \<mapsto> JStr ''Alpha'', ''status'' \<mapsto> JStr ''active''],
      [''status'' \<mapsto> JStr ''active''],
      [''id'' \<mapsto> JStr ''p3'', ''name'' \<mapsto> JStr ''Gamma'', ''status'' \<mapsto> JStr ''archived'']]"

text \<open>
  A sample comparison: JavaScript's \<open><\<close> on two numbers and on two strings, and with
  \<open>undefined\<close> on either side, where it is false. (On other operands JavaScript converts
  first; that is not modelled, the operator is a parameter.)
\<close>

definition lt_same_type :: "jsval \<Rightarrow> jsval \<Rightarrow> bool" where
  "lt_same_type a b =
     (case (a, b) of
        (JNum x, JNum y) \<Rightarrow> x < y
      | (JStr s, JStr t) \<Rightarrow> s < t
      | _ \<Rightarrow> False)"

text \<open>
  Sample options: the pending tasks by title, last title first, at most one of them; the
  same after skipping one; and a page of two records after the first.
\<close>

definition isPending :: "obj \<Rightarrow> bool" where
  "isPending item = (fld item ''status'' = JStr ''pending'')"

definition sampleOptions :: FilterOptions where
  "sampleOptions =
     \<lparr>whereOpt = Some (WhereFn (returning isPending)),
      orderBy = Some ''title'',
      order = Some Desc,
      limit = Some 1,
      offset = None\<rparr>"


definition samplePage :: FilterOptions where
  "samplePage =
     \<lparr>whereOpt = None, orderBy = None, order = None, limit = Some 5, offset = Some 1\<rparr>"



text \<open>
  A sample criteria callback that throws on a completed task and is true of any other
  record.
\<close>

definition throwsOnCompleted :: "obj \<Rightarrow> string + bool" where
  "throwsOnCompleted item =
     (if fld item ''status'' = JStr ''completed'' then Inl ''Error: completed task''
      else Inr True)"

text \<open>A database holding the sample records, put in one by one.\<close>

definition emptyDb :: webdb where
  "emptyDb = \<lparr>TASKS = [], EVIDENCE = []\<rparr>"

definition sampleDb :: webdb where
  "sampleDb =
     addEvidence sampleEvidence2 (addEvidence sampleEvidence1
       (addTask sampleTask3 (addTask sampleTask1 (addTask sampleTask2 emptyDb))))"

text \<open>
  A project detail screen showing the synced sample task, a clock reading, and the
  update \<open>{status: 'completed'}\<close>.
\<close>

definition sampleScreen :: "bool \<Rightarrow> screen" where
  "sampleScreen connected =
     \<lparr>projectId = ''2'',
      tasks = [sampleTask2],
      newTask = \<lparr>title = ''Update test cases'',
                 description = ''Add new test cases for recent features'',
                 dueDate = []\<rparr>,
      isConnected = connected,
      selectedTaskId = Some ''task-2''\<rparr>"

definition markCompleted :: obj where
  "markCompleted = [''status'' \<mapsto> JStr ''completed'']"

definition sampleNow :: string where
  "sampleNow = ''2025-01-02T08:00:00.000Z''"

text \<open>An item that comes with the identifier of the first sample task.\<close>

definition duplicateTask :: obj where
  "duplicateTask = [''id'' \<mapsto> JStr ''task-1'', ''title'' \<mapsto> JStr ''Update test cases'']"

text \<open>
  A sample \<open>trim\<close>, for texts whose white space is ASCII: it removes the white space at
  both ends. (\<open>String.prototype.trim\<close> removes the other Unicode white space and line
  terminators as well; the function is a parameter.)
\<close>

definition ascii_space :: "char \<Rightarrow> bool" where
  "ascii_space c = (c \<in> set [CHR 0x09, CHR 0x0A, CHR 0x0B, CHR 0x0C, CHR 0x0D, CHR '' ''])"

definition trim_ascii :: "string \<Rightarrow> string" where
  "trim_ascii s = rev (dropWhile ascii_space (rev (dropWhile ascii_space s)))"

text \<open>The clock of a handler call (\<open>Date.now()\<close> as text, and two dates) and a picked file.\<close>

definition sampleClock :: env where
  "sampleClock = \<lparr>fresh_id = ''1735725600000'',
                  now_created = ''2025-01-01T10:00:00.000Z'',
                  now_updated = ''2025-01-01T10:00:00.000Z''\<rparr>"

definition sampleFile :: UploadedFile where
  "sampleFile = \<lparr>file_name = ''site-photo.jpg'',
                 file_uri = ''file:///photos/site-photo.jpg'',
                 file_type = ''image/jpeg''\<rparr>"

section \<open>Properties\<close>

subsection \<open>Reading back what was written\<close>

lemma jsonify_val_undefined [simp]: "(jsonify_val v = JUndefined) = (v = JUndefined)"
  by (cases v) auto

lemma jsonify_val_idem [simp]: "jsonify_val (jsonify_val v) = jsonify_val v"
  by (induction v rule: jsonify_val.induct) auto

lemma jsonify_idem [simp]: "jsonify (jsonify item) = jsonify item"
  by (rule ext) (simp add: jsonify_def split: option.splits jsval.splits)

lemma readStorage_idem [simp]: "readStorage (readStorage st) = readStorage st"
  by (simp add: readStorage_def)

lemma readStorage_filter: "readStorage (filter p (readStorage st)) = filter p (readStorage st)"
  by (simp add: readStorage_def filter_map comp_def)

lemma fld_jsonify: "fld (jsonify item) key = jsonify_val (fld item key)"
  by (simp add: fld_def jsonify_def split: option.splits jsval.splits)

subsection \<open>Looking a record up\<close>

lemma strict_eq_id [simp]: "strict_eq a (id_val rid) = (a = id_val rid)"
  by (cases rid; cases a) (auto simp: strict_eq_def)

lemma strict_eq_JStr [simp]: "strict_eq a (JStr s) = (a = JStr s)"
  by (cases a) (auto simp: strict_eq_def)

lemma findIndex_None: "(findIndex p xs = None) = (\<forall>x \<in> set xs. \<not> p x)"
  by (induction xs) auto

lemma findIndex_Some:
  "findIndex p xs = Some i \<Longrightarrow> i < length xs \<and> p (xs ! i) \<and> (\<forall>j < i. \<not> p (xs ! j))"
proof (induction xs arbitrary: i)
  case Nil
  then show ?case by simp
next
  case (Cons x xs)
  show ?case
  proof (cases "p x")
    case True
    with Cons.prems show ?thesis by simp
  next
    case False
    with Cons.prems obtain k where k: "findIndex p xs = Some k" "i = Suc k" by auto
    from Cons.IH [OF k(1)] False k(2) show ?thesis
      by (auto simp: less_Suc_eq_0_disj)
  qed
qed

lemma exists_findIndex:
  "exists config rid st =
     (findIndex (\<lambda>i. strict_eq (fld i (getIdField config)) (id_val rid)) (readStorage st) \<noteq> None)"
  by (auto simp add: exists_def getById_def findIndex_None find_None_iff)

lemma sampleConfig_idField [simp]: "getIdField sampleConfig = ''id''"
  by (simp add: sampleConfig_def constructor_def getIdField_def)

lemma sampleStore_no_task9: "\<not> exists sampleConfig (IdStr ''task-9'') sampleStore"
  by (simp add: exists_def getById_def readStorage_def sampleStore_def fld_jsonify)
     (simp add: fld_def sampleTask1_def sampleTask2_def sampleTask3_def)

subsection \<open>Deleting\<close>

lemma delete_absent:
  "\<not> exists config rid st \<Longrightarrow> delete config rid st = (st, failure (Some ''Item not found''))"
  by (simp add: exists_findIndex delete_def Let_def)

lemma deleteBulk_collection:
  "readStorage (fst (deleteBulk config ids st)) =
     filter (\<lambda>item. fld item (getIdField config) \<notin> id_val ` set ids) (readStorage st)"
proof -
  have "ids_includes ids v = (v \<in> id_val ` set ids)" for v
    by (auto simp: ids_includes_def list_ex_iff)
  then show ?thesis
    by (simp add: deleteBulk_def writeStorage_def readStorage_filter Let_def)
qed

lemma deleteBulk_twice:
  "fst (deleteBulk config ids (fst (deleteBulk config ids st))) = fst (deleteBulk config ids st)"
  by (simp add: deleteBulk_def writeStorage_def readStorage_filter Let_def)

lemma matches_selects:
  assumes "case w of
             WhereFn p \<Rightarrow> \<forall>item \<in> set xs. p item = Inr (q item)
           | WhereObj entries \<Rightarrow>
               \<forall>item \<in> set xs. q item = list_all (\<lambda>(key, v). strict_eq (fld item key) v) entries"
  shows "\<forall>item \<in> set xs. matches w item = Inr (q item)"
  using assms by (cases w) (simp_all add: matches_def)

lemma deleteWhere_filter_returns:
  assumes "\<forall>item \<in> set xs. matches criteria item = Inr (q item)"
  shows "deleteWhere_filter criteria xs
           = Inr (filter (\<lambda>item. \<not> q item) xs, length (filter q xs))"
  using assms by (induction xs) simp_all

lemma deleteWhere_filter_throws:
  assumes "\<forall>x \<in> set before. matches criteria x = Inr (r x)" and "matches criteria item = Inl e"
  shows "deleteWhere_filter criteria (before @ item # rest) = Inl e"
  using assms by (induction before) simp_all

lemma deleteWhere_filter_cases:
  "(\<exists>e. deleteWhere_filter criteria xs = Inl e)
   \<or> (\<forall>item \<in> set xs. matches criteria item = Inr (projr (matches criteria item)))"
proof (induction xs)
  case Nil
  then show ?case by simp
next
  case (Cons x xs)
  show ?case
  proof (cases "matches criteria x")
    case (Inl e)
    then show ?thesis by simp
  next
    case (Inr b)
    with Cons.IH show ?thesis by (auto split: sum.splits)
  qed
qed

lemma deleteWhere_returns:
  assumes "\<forall>item \<in> set (readStorage st). matches criteria item = Inr (q item)"
  shows "deleteWhere criteria st
           = (filter (\<lambda>item. \<not> q item) (readStorage st),
              succeed (length (filter q (readStorage st))))"
  using deleteWhere_filter_returns [OF assms]
  by (simp add: deleteWhere_def writeStorage_def Let_def)

lemma deleteWhere_throws:
  assumes "readStorage st = before @ item # rest"
    and "\<forall>x \<in> set before. thrower x = Inr (r x)" and "thrower item = Inl e"
  shows "deleteWhere (WhereFn thrower) st = (st, failure (Some e))"
proof -
  have "deleteWhere_filter (WhereFn thrower) (before @ item # rest) = Inl e"
    by (rule deleteWhere_filter_throws [where r = r]) (simp_all add: matches_def assms)
  with assms(1) show ?thesis by (simp add: deleteWhere_def Let_def)
qed

lemma deleteWhere_twice:
  "fst (deleteWhere criteria (fst (deleteWhere criteria st))) = fst (deleteWhere criteria st)"
proof -
  consider (throws) e where "deleteWhere_filter criteria (readStorage st) = Inl e"
    | (returns) "\<forall>item \<in> set (readStorage st).
                   matches criteria item = Inr (projr (matches criteria item))"
    using deleteWhere_filter_cases [of criteria "readStorage st"] by blast
  then show ?thesis
  proof cases
    case throws
    then show ?thesis by (simp add: deleteWhere_def Let_def)
  next
    case returns
    define q where "q = (\<lambda>item. projr (matches criteria item))"
    define kept where "kept = filter (\<lambda>item. \<not> q item) (readStorage st)"
    from returns have all: "\<forall>item \<in> set (readStorage st). matches criteria item = Inr (q item)"
      by (simp add: q_def)
    have first: "fst (deleteWhere criteria st) = kept"
      by (simp add: deleteWhere_returns [OF all] kept_def)
    have read: "readStorage kept = kept"
      by (simp add: kept_def readStorage_filter)
    from all have "\<forall>item \<in> set (readStorage kept). matches criteria item = Inr (q item)"
      by (simp add: read) (simp add: kept_def)
    from deleteWhere_returns [OF this] have "fst (deleteWhere criteria kept) = kept"
      by (simp add: read) (simp add: kept_def)
    with first show ?thesis by simp
  qed
qed

lemma sampleStore_read:
  "readStorage sampleStore = [jsonify sampleTask1] @ jsonify sampleTask2 # [jsonify sampleTask3]"
  by (simp add: readStorage_def sampleStore_def)

lemma sample_status:
  "fld (jsonify sampleTask1) ''status'' = JStr ''pending''"
  "fld (jsonify sampleTask2) ''status'' = JStr ''completed''"
  "fld (jsonify sampleTask3) ''status'' = JStr ''pending''"
  by (simp_all add: fld_jsonify)
     (simp_all add: fld_def sampleTask1_def sampleTask2_def sampleTask3_def)

lemma sample_pending:
  "filter isPending (readStorage sampleStore) = [jsonify sampleTask1, jsonify sampleTask3]"
  "filter (\<lambda>item. \<not> isPending item) (readStorage sampleStore) = [jsonify sampleTask2]"
  by (simp_all add: sampleStore_read isPending_def sample_status)

lemma deleteWhere_sample_throws:
  "deleteWhere (WhereFn throwsOnCompleted) sampleStore
     = (sampleStore, failure (Some ''Error: completed task''))"
  by (rule deleteWhere_throws [OF sampleStore_read, where r = "\<lambda>item. True"])
     (simp_all add: throwsOnCompleted_def sample_status)

text \<open>
  C8 (as amended). \<open>delete\<close> of an identifier no stored record carries answers
  \<open>Item not found\<close> and writes nothing. \<open>deleteBulk\<close> succeeds on every list of identifiers
  and leaves exactly the records that carry none of them. \<open>deleteWhere\<close> succeeds whenever
  its criteria is an object, or a callback that returns on every stored record: with \<open>q\<close>
  the predicate the criteria amounts to, it leaves exactly the records \<open>q\<close> is false of, in
  their order, and reports how many records \<open>q\<close> is true of. When the callback throws on a
  stored record, having returned on the records before it, \<open>deleteWhere\<close> fails with the
  text thrown and leaves the store as it was. \<open>clear\<close> succeeds and leaves the empty
  collection. Running \<open>deleteBulk\<close>, \<open>deleteWhere\<close> or \<open>clear\<close> a second time with the same
  argument leaves the store as the first run left it.
\<close>

theorem delete_family:
  "(\<not> exists config rid st \<longrightarrow>
       delete config rid st = (st, failure (Some ''Item not found'')))
   \<and> success_b (snd (deleteBulk config ids st))
   \<and> readStorage (fst (deleteBulk config ids st)) =
       filter (\<lambda>item. fld item (getIdField config) \<notin> id_val ` set ids) (readStorage st)
   \<and> ((case criteria of
          WhereFn p \<Rightarrow> \<forall>item \<in> set (readStorage st). p item = Inr (q item)
        | WhereObj entries \<Rightarrow>
            \<forall>item \<in> set (readStorage st).
               q item = list_all (\<lambda>(key, v). strict_eq (fld item key) v) entries) \<longrightarrow>
         success (snd (deleteWhere criteria st))
       \<and> data (snd (deleteWhere criteria st)) = Some (length (filter q (readStorage st)))
       \<and> readStorage (fst (deleteWhere criteria st)) =
           filter (\<lambda>item. \<not> q item) (readStorage st))
   \<and> (readStorage st = before @ item # rest
        \<and> (\<forall>x \<in> set before. thrower x = Inr (r x)) \<and> thrower item = Inl e \<longrightarrow>
         deleteWhere (WhereFn thrower) st = (st, failure (Some e)))
   \<and> success (snd (clear st))
   \<and> readStorage (fst (clear st)) = []
   \<and> fst (deleteBulk config ids (fst (deleteBulk config ids st))) = fst (deleteBulk config ids st)
   \<and> fst (deleteWhere criteria (fst (deleteWhere criteria st))) = fst (deleteWhere criteria st)
   \<and> fst (clear (fst (clear st))) = fst (clear st)"
proof -
  have s1: "success_b (snd (deleteBulk config ids st))"
    by (simp add: deleteBulk_def Let_def)
  have s2: "success (snd (deleteWhere criteria st))
       \<and> data (snd (deleteWhere criteria st)) = Some (length (filter q (readStorage st)))
       \<and> readStorage (fst (deleteWhere criteria st)) =
           filter (\<lambda>item. \<not> q item) (readStorage st)"
    if sel: "case criteria of
          WhereFn p \<Rightarrow> \<forall>item \<in> set (readStorage st). p item = Inr (q item)
        | WhereObj entries \<Rightarrow>
            \<forall>item \<in> set (readStorage st).
               q item = list_all (\<lambda>(key, v). strict_eq (fld item key) v) entries"
    using deleteWhere_returns [OF matches_selects [OF sel]]
    by (simp add: succeed_def readStorage_filter)
  have s3: "success (snd (clear st)) \<and> readStorage (fst (clear st)) = []
       \<and> fst (clear (fst (clear st))) = fst (clear st)"
    by (simp add: clear_def succeed_def writeStorage_def readStorage_def)
  have s4: "deleteWhere (WhereFn thrower) st = (st, failure (Some e))"
    if "readStorage st = before @ item # rest
        \<and> (\<forall>x \<in> set before. thrower x = Inr (r x)) \<and> thrower item = Inl e"
    using that deleteWhere_throws [where st = st and before = before and item = item
        and rest = rest and thrower = thrower and r = r and e = e]
    by blast
  show ?thesis
    using delete_absent [of config rid st] s1 s2 s3 s4
      deleteBulk_collection [of config ids st]
      deleteBulk_twice [of config ids st] deleteWhere_twice [of criteria st]
    by blast
qed

theorem delete_family_witness:
  "\<not> exists sampleConfig (IdStr ''task-9'') sampleStore
   \<and> delete sampleConfig (IdStr ''task-9'') sampleStore
       = (sampleStore, failure (Some ''Item not found''))
   \<and> readStorage (fst (deleteBulk sampleConfig [IdStr ''task-9''] sampleStore))
       = filter (\<lambda>item. fld item ''id'' \<notin> {JStr ''task-9''}) (readStorage sampleStore)
   \<and> success (snd (deleteWhere (WhereFn (returning isPending)) sampleStore))
   \<and> data (snd (deleteWhere (WhereFn (returning isPending)) sampleStore)) = Some 2
   \<and> readStorage (fst (deleteWhere (WhereFn (returning isPending)) sampleStore))
       = [jsonify sampleTask2]
   \<and> deleteWhere (WhereFn throwsOnCompleted) sampleStore
       = (sampleStore, failure (Some ''Error: completed task''))"
proof -
  have returns: "case WhereFn (returning isPending) of
          WhereFn p \<Rightarrow> \<forall>item \<in> set (readStorage sampleStore). p item = Inr (isPending item)
        | WhereObj entries \<Rightarrow>
            \<forall>item \<in> set (readStorage sampleStore).
               isPending item = list_all (\<lambda>(key, v). strict_eq (fld item key) v) entries"
    by (simp add: returning_def)
  have throws: "(\<forall>x \<in> set [jsonify sampleTask1]. throwsOnCompleted x = Inr True)
      \<and> throwsOnCompleted (jsonify sampleTask2) = Inl ''Error: completed task''"
    by (simp add: throwsOnCompleted_def sample_status)
  show ?thesis
    using delete_family [where config = sampleConfig and rid = "IdStr ''task-9''"
        and st = sampleStore and ids = "[IdStr ''task-9'']"
        and criteria = "WhereFn (returning isPending)" and q = isPending
        and before = "[jsonify sampleTask1]" and item = "jsonify sampleTask2"
        and rest = "[jsonify sampleTask3]" and thrower = throwsOnCompleted
        and r = "\<lambda>item. True" and e = "''Error: completed task''"]
      sampleStore_no_task9 returns throws sampleStore_read
    by (simp add: isPending_def sample_status)
qed

text \<open>
  The criteria callback throws on the second sample task: \<open>deleteWhere\<close> does not succeed,
  and the store is as it was.
\<close>

theorem deleteWhere_throwing_counterexample:
  "\<not> success (snd (deleteWhere (WhereFn throwsOnCompleted) sampleStore))
   \<and> error (snd (deleteWhere (WhereFn throwsOnCompleted) sampleStore))
       = Some ''Error: completed task''
   \<and> fst (deleteWhere (WhereFn throwsOnCompleted) sampleStore) = sampleStore"
  by (simp add: deleteWhere_sample_throws failure_def)

subsection \<open>Timestamps and the identifier\<close>

lemma fld_addTimestamps_id:
  "timestamps_apart config \<Longrightarrow>
     fld (addTimestamps config n1 n2 x isNew) (getIdField config) = fld x (getIdField config)"
  by (auto simp: timestamps_apart_def addTimestamps_def fld_def Let_def split: option.splits)

subsection \<open>Replacing and patching\<close>

lemma put_absent:
  "\<not> exists config rid st \<Longrightarrow>
     put config validate now rid item st = (st, failure (Some ''Item not found''))"
  by (simp add: exists_findIndex put_def Let_def)

lemma patch_absent:
  "\<not> exists config rid st \<Longrightarrow>
     patch config validate now rid updates st = (st, failure (Some ''Item not found''))"
  by (simp add: exists_findIndex patch_def Let_def)

lemma put_present:
  assumes "findIndex (\<lambda>i. strict_eq (fld i (getIdField config)) (id_val rid)) (readStorage st) = Some i"
    and "p = addTimestamps config now now (item(getIdField config \<mapsto> id_val rid)) False"
  shows "(validate (readStorage st) p = Valid \<longrightarrow>
            put config validate now rid item st = ((readStorage st)[i := p], succeed p))
       \<and> (validate (readStorage st) p \<noteq> Valid \<longrightarrow>
            fst (put config validate now rid item st) = st
          \<and> \<not> success (snd (put config validate now rid item st)))"
  using assms
  by (cases "validate (readStorage st) p")
     (simp_all add: put_def Let_def writeStorage_def failure_def)

lemma patch_present:
  assumes "findIndex (\<lambda>i. strict_eq (fld i (getIdField config)) (id_val rid)) (readStorage st) = Some i"
    and "q = addTimestamps config now now
                 (((readStorage st ! i) ++ updates)(getIdField config \<mapsto> id_val rid)) False"
  shows "(validate (readStorage st) q = Valid \<longrightarrow>
            patch config validate now rid updates st = ((readStorage st)[i := q], succeed q))
       \<and> (validate (readStorage st) q \<noteq> Valid \<longrightarrow>
            fst (patch config validate now rid updates st) = st
          \<and> \<not> success (snd (patch config validate now rid updates st)))"
  using assms
  by (cases "validate (readStorage st) q")
     (simp_all add: patch_def Let_def writeStorage_def failure_def)

text \<open>
  C7. When no stored record carries the identifier, \<open>put\<close> and \<open>patch\<close> answer
  \<open>Item not found\<close> and write nothing. When one does, the first such record, at position
  \<open>i\<close>, is replaced: by the given item for \<open>put\<close>, by the stored record overlaid with the
  updates for \<open>patch\<close>, in both cases with the identifier set back to the one asked for and
  \<open>updatedAt\<close> stamped. The replacement is validated first: if the hook accepts it the
  operation succeeds and returns it, otherwise nothing is written and the operation fails.
\<close>

theorem put_patch_contract:
  "(\<not> exists config rid st \<longrightarrow>
       put config validate now rid item st = (st, failure (Some ''Item not found''))
     \<and> patch config validate now rid updates st = (st, failure (Some ''Item not found'')))
   \<and> (exists config rid st \<and> timestamps_apart config \<longrightarrow>
       (\<exists>i < length (readStorage st).
           fld (readStorage st ! i) (getIdField config) = id_val rid
         \<and> (let stored = readStorage st;
                 idf = getIdField config;
                 p = addTimestamps config now now (item(idf \<mapsto> id_val rid)) False;
                 q = addTimestamps config now now (((stored ! i) ++ updates)(idf \<mapsto> id_val rid)) False
             in fld p idf = id_val rid
              \<and> fld q idf = id_val rid
              \<and> (validate stored p = Valid \<longrightarrow>
                   put config validate now rid item st = (stored[i := p], succeed p))
              \<and> (validate stored p \<noteq> Valid \<longrightarrow>
                   fst (put config validate now rid item st) = st
                 \<and> \<not> success (snd (put config validate now rid item st)))
              \<and> (validate stored q = Valid \<longrightarrow>
                   patch config validate now rid updates st = (stored[i := q], succeed q))
              \<and> (validate stored q \<noteq> Valid \<longrightarrow>
                   fst (patch config validate now rid updates st) = st
                 \<and> \<not> success (snd (patch config validate now rid updates st))))))"
proof (intro conjI impI)
  assume "\<not> exists config rid st"
  then show "put config validate now rid item st = (st, failure (Some ''Item not found''))"
    by (rule put_absent)
next
  assume "\<not> exists config rid st"
  then show "patch config validate now rid updates st = (st, failure (Some ''Item not found''))"
    by (rule patch_absent)
next
  assume a: "exists config rid st \<and> timestamps_apart config"
  then obtain i where i: "findIndex (\<lambda>i. strict_eq (fld i (getIdField config)) (id_val rid)) (readStorage st) = Some i"
    by (auto simp: exists_findIndex)
  from findIndex_Some [OF i] have b: "i < length (readStorage st)"
      "fld (readStorage st ! i) (getIdField config) = id_val rid"
    by simp_all
  from a have ids: "fld (addTimestamps config now now (x(getIdField config \<mapsto> id_val rid)) False) (getIdField config) = id_val rid" for x
    by (simp add: fld_addTimestamps_id) (simp add: fld_def)
  show "\<exists>i < length (readStorage st).
           fld (readStorage st ! i) (getIdField config) = id_val rid
         \<and> (let stored = readStorage st;
                 idf = getIdField config;
                 p = addTimestamps config now now (item(idf \<mapsto> id_val rid)) False;
                 q = addTimestamps config now now (((stored ! i) ++ updates)(idf \<mapsto> id_val rid)) False
             in fld p idf = id_val rid
              \<and> fld q idf = id_val rid
              \<and> (validate stored p = Valid \<longrightarrow>
                   put config validate now rid item st = (stored[i := p], succeed p))
              \<and> (validate stored p \<noteq> Valid \<longrightarrow>
                   fst (put config validate now rid item st) = st
                 \<and> \<not> success (snd (put config validate now rid item st)))
              \<and> (validate stored q = Valid \<longrightarrow>
                   patch config validate now rid updates st = (stored[i := q], succeed q))
              \<and> (validate stored q \<noteq> Valid \<longrightarrow>
                   fst (patch config validate now rid updates st) = st
                 \<and> \<not> success (snd (patch config validate now rid updates st))))"
    unfolding Let_def
    using b ids put_present [OF i refl, of validate now item] patch_present [OF i refl, of validate now updates]
    by blast
qed

lemma sampleStore_has_task2: "exists sampleConfig (IdStr ''task-2'') sampleStore"
  by (simp add: exists_def getById_def readStorage_def sampleStore_def fld_jsonify)
     (simp add: fld_def sampleTask1_def sampleTask2_def sampleTask3_def)

lemma sampleConfig_apart: "timestamps_apart sampleConfig"
  by (simp add: timestamps_apart_def) (simp add: sampleConfig_def constructor_def getIdField_def)

theorem put_patch_contract_witness:
  "\<not> exists sampleConfig (IdStr ''task-9'') sampleStore
   \<and> put sampleConfig validate_default ''2025-01-02T08:00:00.000Z'' (IdStr ''task-9'') sampleTask1 sampleStore
       = (sampleStore, failure (Some ''Item not found''))
   \<and> exists sampleConfig (IdStr ''task-2'') sampleStore \<and> timestamps_apart sampleConfig
   \<and> success (snd (patch sampleConfig validate_default ''2025-01-02T08:00:00.000Z'' (IdStr ''task-2'')
                      [''status'' \<mapsto> JStr ''pending''] sampleStore))"
  using put_patch_contract [of sampleConfig "IdStr ''task-9''" sampleStore validate_default
      "''2025-01-02T08:00:00.000Z''" sampleTask1 "[''status'' \<mapsto> JStr ''pending'']"]
    put_patch_contract [of sampleConfig "IdStr ''task-2''" sampleStore validate_default
      "''2025-01-02T08:00:00.000Z''" sampleTask1 "[''status'' \<mapsto> JStr ''pending'']"]
    sampleStore_no_task9 sampleStore_has_task2 sampleConfig_apart
  by (auto simp: Let_def validate_default_def succeed_def)

subsection \<open>Creating in bulk\<close>

lemma createBulk_loop_eq:
  "createBulk_loop config validate envs stored i items (ns, es) =
     (ns @ map (prepared config envs) (filter (accepted config validate envs stored) (enumerate i items)),
      es @ map (rejection config validate envs stored)
             (filter (\<lambda>p. \<not> accepted config validate envs stored p) (enumerate i items)))"
proof (induction items arbitrary: i ns es)
  case Nil
  then show ?case by simp
next
  case (Cons item rest)
  show ?case
    by (cases "validate stored (newItemOf config (envs i) item)")
       (simp_all add: Cons.IH accepted_def prepared_def rejection_def)
qed

text \<open>
  C2. Of the input items, paired with their indices, let \<open>valid\<close> be those whose prepared
  item (identifier and timestamps added) the hook accepts and \<open>invalid\<close> the others.
  \<open>createBulk\<close> returns the prepared valid items as data and one error entry per invalid
  item, in input order, carrying that item's index and the hook's reason; the collection
  read back afterwards is the old collection followed by the valid items; and every input
  item is in exactly one of the two lists.
\<close>

theorem createBulk_partial_success:
  "(let stored = readStorage st;
        valid = filter (accepted config validate envs stored) (enumerate 0 items);
        invalid = filter (\<lambda>p. \<not> accepted config validate envs stored p) (enumerate 0 items);
        st' = fst (createBulk config validate envs items st);
        res = snd (createBulk config validate envs items st)
    in data_b res = Some (map (prepared config envs) valid)
     \<and> errors res = (if invalid = [] then None
                      else Some (map (rejection config validate envs stored) invalid))
     \<and> success_b res = (invalid = [])
     \<and> readStorage st' = stored @ map jsonify (map (prepared config envs) valid)
     \<and> length valid + length invalid = length items)"
proof -
  have len: "length (filter p xs) + length (filter (\<lambda>x. \<not> p x) xs) = length xs" for p and xs :: "(nat \<times> obj) list"
    by (rule sum_length_filter_compl)
  show ?thesis
    using len [of "accepted config validate envs (readStorage st)" "enumerate 0 items"]
    by (simp add: createBulk_def createBulk_loop_eq Let_def writeStorage_def)
       (simp add: readStorage_def)
qed


lemma sampleProjects_verdicts:
  "filter (accepted sampleConfig validateName (\<lambda>i. sampleEnv) []) (enumerate 0 sampleProjects)
     = [(0, sampleProjects ! 0), (2, sampleProjects ! 2)]
   \<and> filter (\<lambda>p. \<not> accepted sampleConfig validateName (\<lambda>i. sampleEnv) [] p) (enumerate 0 sampleProjects)
     = [(1, sampleProjects ! 1)]
   \<and> rejection sampleConfig validateName (\<lambda>i. sampleEnv) [] (1, sampleProjects ! 1)
     = (1, ''Project name is required'')"
  by (simp add: sampleProjects_def accepted_def rejection_def prepared_def newItemOf_def
      addTimestamps_def sampleConfig_def constructor_def getIdField_def has_key_def
      validateName_def fld_def Let_def error_or_default_def)

theorem createBulk_partial_success_witness:
  "errors (snd (createBulk sampleConfig validateName (\<lambda>i. sampleEnv) sampleProjects []))
     = Some [(1, ''Project name is required'')]
   \<and> map_option length (data_b (snd (createBulk sampleConfig validateName (\<lambda>i. sampleEnv) sampleProjects [])))
     = Some 2
   \<and> length (readStorage (fst (createBulk sampleConfig validateName (\<lambda>i. sampleEnv) sampleProjects []))) = 2"
  using createBulk_partial_success [of "[]" sampleConfig validateName "\<lambda>i. sampleEnv" sampleProjects]
    sampleProjects_verdicts
  by (simp add: Let_def readStorage_def)

subsection \<open>Slicing and sorting\<close>

lemma slice_limit: "0 \<le> k \<Longrightarrow> slice xs 0 (Some k) = take (nat k) xs"
  by (simp add: slice_def clamp_index_def Let_def min_def)

lemma slice_offset: "0 \<le> off \<Longrightarrow> slice xs off None = drop (nat off) xs"
  by (simp add: slice_def clamp_index_def Let_def min_def)

lemma set_sort_insert [simp]: "set (sort_insert cmp x ys) = insert x (set ys)"
  by (induction ys) auto

lemma mset_sort_insert [simp]: "mset (sort_insert cmp x ys) = add_mset x (mset ys)"
  by (induction ys) auto

lemma array_sort_Cons: "array_sort cmp (x # xs) = sort_insert cmp x (array_sort cmp xs)"
  by (simp add: array_sort_def)

lemma array_sort_Nil [simp]: "array_sort cmp [] = []"
  by (simp add: array_sort_def)

lemma mset_array_sort [simp]: "mset (array_sort cmp xs) = mset xs"
  by (induction xs) (simp_all add: array_sort_Cons)

lemma set_array_sort [simp]: "set (array_sort cmp xs) = set xs"
  by (induction xs) (simp_all add: array_sort_Cons)

lemma length_sort_insert [simp]: "length (sort_insert cmp x ys) = Suc (length ys)"
  by (induction ys) auto

lemma length_array_sort [simp]: "length (array_sort cmp xs) = length xs"
  by (induction xs) (simp_all add: array_sort_Cons)













lemma array_filter_returns:
  assumes "\<forall>x \<in> set xs. callback x = Inr (q x)"
  shows "array_filter callback xs = Inr (filter q xs)"
  using assms by (induction xs) simp_all


lemma applyFilters_returns:
  assumes "case whereOpt options of
             None \<Rightarrow> \<forall>item \<in> set stored. q item
           | Some w \<Rightarrow> \<forall>item \<in> set stored. matches w item = Inr (q item)"
  shows "applyFilters lt stored options =
           Inr (let matched = filter q stored;
                    sorted =
                      (case orderBy options of
                         None \<Rightarrow> matched
                       | Some f \<Rightarrow>
                           if f \<noteq> [] then array_sort (compareFn lt f (order options)) matched
                           else matched);
                    skipped =
                      (case offset options of
                         None \<Rightarrow> sorted
                       | Some off \<Rightarrow> slice sorted off None)
                in case limit options of
                     None \<Rightarrow> skipped
                   | Some k \<Rightarrow> slice skipped 0 (Some k))"
proof (cases "whereOpt options")
  case None
  with assms have "filter q stored = stored" by simp
  with None show ?thesis by (simp add: applyFilters_def Let_def)
next
  case (Some w)
  with assms have "array_filter (matches w) stored = Inr (filter q stored)"
    by (simp add: array_filter_returns)
  with Some show ?thesis by (simp add: applyFilters_def Let_def)
qed


lemma where_selects:
  assumes "case whereOpt options of
             None \<Rightarrow> \<forall>item \<in> set xs. q item
           | Some (WhereFn p) \<Rightarrow> \<forall>item \<in> set xs. p item = Inr (q item)
           | Some (WhereObj entries) \<Rightarrow>
               \<forall>item \<in> set xs. q item = list_all (\<lambda>(key, v). strict_eq (fld item key) v) entries"
  shows "case whereOpt options of
           None \<Rightarrow> \<forall>item \<in> set xs. q item
         | Some w \<Rightarrow> \<forall>item \<in> set xs. matches w item = Inr (q item)"
proof (cases "whereOpt options")
  case None
  with assms show ?thesis by simp
next
  case (Some w)
  with assms show ?thesis by (cases w) (simp_all add: matches_def)
qed











subsection \<open>Counting\<close>

lemma count_items_getAll:
  "count_items lt (Some options) st = length (getAll lt (Some options) st)"
  by (simp add: count_items_def getAll_def Let_def split: sum.splits)

lemma getAll_unordered_length:
  assumes "case whereOpt options of
             None \<Rightarrow> \<forall>item \<in> set (readStorage st). q item
           | Some w \<Rightarrow> \<forall>item \<in> set (readStorage st). matches w item = Inr (q item)"
  shows "length (getAll lt (Some options) st) =
           length (let skipped =
                         (case offset options of
                            None \<Rightarrow> filter q (readStorage st)
                          | Some off \<Rightarrow> slice (filter q (readStorage st)) off None)
                   in case limit options of
                        None \<Rightarrow> skipped
                      | Some k \<Rightarrow> slice skipped 0 (Some k))"
proof -
  define sorted where
    "sorted = (case orderBy options of
                 None \<Rightarrow> filter q (readStorage st)
               | Some f \<Rightarrow>
                   if f \<noteq> [] then array_sort (compareFn lt f (order options)) (filter q (readStorage st))
                   else filter q (readStorage st))"
  have len: "length sorted = length (filter q (readStorage st))"
    by (simp add: sorted_def split: option.splits)
  have slen: "length (slice xs i e) = length (slice ys i e)" if "length xs = length ys"
    for xs ys :: "obj list" and i e
    using that by (simp add: slice_def Let_def)
  have "getAll lt (Some options) st =
      (let skipped = (case offset options of None \<Rightarrow> sorted | Some off \<Rightarrow> slice sorted off None)
       in case limit options of None \<Rightarrow> skipped | Some k \<Rightarrow> slice skipped 0 (Some k))"
    unfolding sorted_def
    using applyFilters_returns [OF assms, of lt] by (simp add: getAll_def Let_def)
  then show ?thesis
    using len by (auto simp: Let_def split: option.splits intro!: slen)
qed

text \<open>
  C10. \<open>count\<close> with options returns the length of what \<open>getAll\<close> returns for the same
  options: the list left after the filter, the sort and the offset and limit slices. With
  \<open>q\<close> the predicate the \<open>where\<close> clause amounts to (true of every record when there is
  none; the callback's value, for a callback that returns on every stored record; the
  equality of every entry, for an object), the matching items are the stored records \<open>q\<close>
  is true of, and \<open>count\<close> answers: with a limit \<open>k\<close> (not negative) and no offset, the
  smaller of \<open>k\<close> and their number; with an offset \<open>off\<close> (not negative) and no limit, their
  number less \<open>off\<close>; with both, the smaller of \<open>k\<close> and their number less \<open>off\<close>.
\<close>

theorem count_after_slice:
  "count_items lt (Some options) st = length (getAll lt (Some options) st)
   \<and> ((case whereOpt options of
          None \<Rightarrow> \<forall>item \<in> set (readStorage st). q item
        | Some (WhereFn p) \<Rightarrow> \<forall>item \<in> set (readStorage st). p item = Inr (q item)
        | Some (WhereObj entries) \<Rightarrow>
            \<forall>item \<in> set (readStorage st).
               q item = list_all (\<lambda>(key, v). strict_eq (fld item key) v) entries) \<longrightarrow>
       (limit options = Some k \<and> 0 \<le> k \<and> offset options = None \<longrightarrow>
          count_items lt (Some options) st = min (nat k) (length (filter q (readStorage st))))
     \<and> (offset options = Some off \<and> 0 \<le> off \<and> limit options = None \<longrightarrow>
          count_items lt (Some options) st = length (filter q (readStorage st)) - nat off)
     \<and> (limit options = Some k \<and> 0 \<le> k \<and> offset options = Some off \<and> 0 \<le> off \<longrightarrow>
          count_items lt (Some options) st
            = min (nat k) (length (filter q (readStorage st)) - nat off)))"
proof (intro conjI impI)
  show "count_items lt (Some options) st = length (getAll lt (Some options) st)"
    by (rule count_items_getAll)
next
  assume sel: "case whereOpt options of
          None \<Rightarrow> \<forall>item \<in> set (readStorage st). q item
        | Some (WhereFn p) \<Rightarrow> \<forall>item \<in> set (readStorage st). p item = Inr (q item)
        | Some (WhereObj entries) \<Rightarrow>
            \<forall>item \<in> set (readStorage st).
               q item = list_all (\<lambda>(key, v). strict_eq (fld item key) v) entries"
  note len = getAll_unordered_length [OF where_selects [OF sel], of lt]
  {
    assume "limit options = Some k \<and> 0 \<le> k \<and> offset options = None"
    then show "count_items lt (Some options) st
        = min (nat k) (length (filter q (readStorage st)))"
      by (simp add: count_items_getAll len slice_limit min.commute)
  next
    assume "offset options = Some off \<and> 0 \<le> off \<and> limit options = None"
    then show "count_items lt (Some options) st = length (filter q (readStorage st)) - nat off"
      by (simp add: count_items_getAll len slice_offset)
  next
    assume "limit options = Some k \<and> 0 \<le> k \<and> offset options = Some off \<and> 0 \<le> off"
    then show "count_items lt (Some options) st
        = min (nat k) (length (filter q (readStorage st)) - nat off)"
      by (simp add: count_items_getAll len slice_limit slice_offset min.commute)
  }
qed

theorem count_after_slice_witness:
  "count_items lt_same_type
     (Some \<lparr>whereOpt = None, orderBy = None, order = None, limit = Some 2, offset = None\<rparr>)
     sampleStore = 2
   \<and> count_items lt_same_type (Some samplePage) sampleStore = 2
   \<and> count_items lt_same_type (Some (sampleOptions\<lparr>limit := None, offset := Some 1\<rparr>))
       sampleStore = 1
   \<and> length (readStorage sampleStore) = 3
   \<and> length (filter isPending (readStorage sampleStore)) = 2"
proof -
  have all: "\<forall>item \<in> set (readStorage sampleStore). True" by simp
  have n: "length (readStorage sampleStore) = 3" by (simp add: sampleStore_read)
  from count_after_slice [where lt = lt_same_type
      and options = "\<lparr>whereOpt = None, orderBy = None, order = None, limit = Some 2, offset = None\<rparr>"
      and st = sampleStore and q = "\<lambda>item. True" and k = 2 and off = 0] n
  have one: "count_items lt_same_type
      (Some \<lparr>whereOpt = None, orderBy = None, order = None, limit = Some 2, offset = None\<rparr>)
      sampleStore = 2"
    by simp
  from count_after_slice [where lt = lt_same_type and options = samplePage
      and st = sampleStore and q = "\<lambda>item. True" and k = 5 and off = 1] n
  have two: "count_items lt_same_type (Some samplePage) sampleStore = 2"
    by (simp add: samplePage_def)
  from count_after_slice [where lt = lt_same_type
      and options = "sampleOptions\<lparr>limit := None, offset := Some 1\<rparr>"
      and st = sampleStore and q = isPending and k = 0 and off = 1]
  have three: "count_items lt_same_type
      (Some (sampleOptions\<lparr>limit := None, offset := Some 1\<rparr>)) sampleStore = 1"
    by (simp add: sampleOptions_def returning_def sample_pending)
  from one two three n show ?thesis by (simp add: sample_pending)
qed

subsection \<open>The sync working set\<close>

lemma selectedForSync_dirty:
  "needsSync_boolean r \<Longrightarrow> selectedForSync r = dirty r"
  by (auto simp: needsSync_boolean_def selectedForSync_def dirty_def split: jsval.splits)

text \<open>
  C5. In every state of the two stores whose records have a boolean (or no) \<open>needsSync\<close>,
  \<open>getItemsNeedingSync\<close> returns exactly the dirty tasks and the dirty evidence, in store
  order; a record with \<open>needsSync\<close> false and \<open>syncStatus\<close> synced is in neither list.
\<close>

theorem getItemsNeedingSync_dirty:
  assumes "\<forall>r \<in> set (getTasks None db) \<union> set (getAllEvidence db). needsSync_boolean r"
  shows "fst (getItemsNeedingSync db) = filter dirty (getTasks None db)
       \<and> snd (getItemsNeedingSync db) = filter dirty (getAllEvidence db)
       \<and> (\<forall>r. fld r ''needsSync'' = JBool False \<and> fld r ''syncStatus'' = JStr ''synced'' \<longrightarrow>
                r \<notin> set (fst (getItemsNeedingSync db)) \<union> set (snd (getItemsNeedingSync db)))"
proof -
  have t: "filter selectedForSync (getTasks None db) = filter dirty (getTasks None db)"
    using assms by (intro filter_cong refl selectedForSync_dirty) simp
  have e: "filter selectedForSync (getAllEvidence db) = filter dirty (getAllEvidence db)"
    using assms by (intro filter_cong refl selectedForSync_dirty) simp
  have "\<not> dirty r" if "fld r ''needsSync'' = JBool False" "fld r ''syncStatus'' = JStr ''synced''" for r
    using that by (simp add: dirty_def)
  then show ?thesis
    using t e by (auto simp: getItemsNeedingSync_def Let_def)
qed

lemma sampleDb_stores:
  "TASKS sampleDb = [(IdStr ''task-1'', sampleTask1), (IdStr ''task-2'', sampleTask2),
                     (IdStr ''task-3'', sampleTask3)]"
  "EVIDENCE sampleDb = [(IdStr ''evidence-1'', sampleEvidence1), (IdStr ''evidence-2'', sampleEvidence2)]"
proof -
  have ids: "fld sampleTask1 ''id'' = JStr ''task-1''" "fld sampleTask2 ''id'' = JStr ''task-2''"
    "fld sampleTask3 ''id'' = JStr ''task-3''" "fld sampleEvidence1 ''id'' = JStr ''evidence-1''"
    "fld sampleEvidence2 ''id'' = JStr ''evidence-2''"
    by (simp_all add: fld_def sampleTask1_def sampleTask2_def sampleTask3_def
        sampleEvidence1_def sampleEvidence2_def)
  show "TASKS sampleDb = [(IdStr ''task-1'', sampleTask1), (IdStr ''task-2'', sampleTask2),
                     (IdStr ''task-3'', sampleTask3)]"
    by (simp add: sampleDb_def emptyDb_def addTask_def addEvidence_def db_put_def ids)
  show "EVIDENCE sampleDb = [(IdStr ''evidence-1'', sampleEvidence1), (IdStr ''evidence-2'', sampleEvidence2)]"
    by (simp add: sampleDb_def emptyDb_def addTask_def addEvidence_def db_put_def ids)
qed

lemma sample_sync_fields:
  "fld sampleTask1 ''needsSync'' = JBool True" "fld sampleTask1 ''syncStatus'' = JStr ''pending''"
  "fld sampleTask2 ''needsSync'' = JBool False" "fld sampleTask2 ''syncStatus'' = JStr ''synced''"
  "fld sampleTask3 ''needsSync'' = JBool True" "fld sampleTask3 ''syncStatus'' = JStr ''failed''"
  "fld sampleEvidence1 ''needsSync'' = JBool True" "fld sampleEvidence1 ''syncStatus'' = JStr ''pending''"
  "fld sampleEvidence2 ''needsSync'' = JBool False" "fld sampleEvidence2 ''syncStatus'' = JStr ''synced''"
  by (simp_all add: fld_def sampleTask1_def sampleTask2_def sampleTask3_def
      sampleEvidence1_def sampleEvidence2_def)

theorem getItemsNeedingSync_dirty_witness:
  "getItemsNeedingSync sampleDb = ([sampleTask1, sampleTask3], [sampleEvidence1])"
proof -
  have typed: "\<forall>r \<in> set (getTasks None sampleDb) \<union> set (getAllEvidence sampleDb). needsSync_boolean r"
    by (simp add: getTasks_def getAllEvidence_def db_getAll_def sampleDb_stores
        needsSync_boolean_def sample_sync_fields)
  from getItemsNeedingSync_dirty [OF typed]
  have "fst (getItemsNeedingSync sampleDb) = filter dirty (getTasks None sampleDb)"
    and "snd (getItemsNeedingSync sampleDb) = filter dirty (getAllEvidence sampleDb)"
    by simp_all
  then have "fst (getItemsNeedingSync sampleDb) = [sampleTask1, sampleTask3]"
    and "snd (getItemsNeedingSync sampleDb) = [sampleEvidence1]"
    by (simp_all add: getTasks_def getAllEvidence_def db_getAll_def sampleDb_stores
        dirty_def sample_sync_fields)
  then show ?thesis by (simp add: prod_eq_iff)
qed

subsection \<open>Local updates and the sync flag\<close>

lemma find_findIndex: "find p xs = Some t \<Longrightarrow> \<exists>i. findIndex p xs = Some i \<and> xs ! i = t"
proof (induction xs)
  case Nil
  then show ?case by simp
next
  case (Cons x xs)
  then show ?case by (cases "p x") auto
qed

lemma find_list_update_first:
  "findIndex p xs = Some i \<Longrightarrow> p y \<Longrightarrow> find p (xs[i := y]) = Some y"
proof (induction xs arbitrary: i)
  case Nil
  then show ?case by simp
next
  case (Cons x xs)
  then show ?case by (cases "p x") auto
qed

lemma getById_find:
  "getById config rid st = Some t \<Longrightarrow>
     \<exists>i. findIndex (\<lambda>x. strict_eq (fld x (getIdField config)) (id_val rid)) (readStorage st) = Some i
        \<and> readStorage st ! i = t"
  unfolding getById_def Let_def by (rule find_findIndex)

lemma readStorage_update:
  "readStorage ((readStorage st)[i := q]) = (readStorage st)[i := jsonify q]"
  by (simp add: readStorage_def map_update o_def)

lemma getById_after_update:
  assumes "findIndex (\<lambda>x. strict_eq (fld x (getIdField config)) (id_val rid)) (readStorage st) = Some i"
    and "fld q (getIdField config) = id_val rid"
  shows "getById config rid ((readStorage st)[i := q]) = Some (jsonify q)"
proof -
  have "fld (jsonify q) (getIdField config) = id_val rid"
    using assms(2) by (cases rid) (simp_all add: fld_jsonify)
  then show ?thesis
    unfolding getById_def Let_def readStorage_update
    using assms(1) by (intro find_list_update_first) simp_all
qed

lemma patch_success:
  assumes "findIndex (\<lambda>x. strict_eq (fld x (getIdField config)) (id_val rid)) (readStorage st) = Some i"
    and "success (snd (patch config validate now rid updates st))"
    and "q = addTimestamps config now now
               (((readStorage st ! i) ++ updates)(getIdField config \<mapsto> id_val rid)) False"
  shows "patch config validate now rid updates st = ((readStorage st)[i := q], succeed q)"
  using patch_present [OF assms(1) assms(3), of validate] assms(2)
  by (cases "validate (readStorage st) q = Valid") auto

lemma put_success:
  assumes "findIndex (\<lambda>x. strict_eq (fld x (getIdField config)) (id_val rid)) (readStorage st) = Some i"
    and "success (snd (put config validate now rid item st))"
    and "q = addTimestamps config now now (item(getIdField config \<mapsto> id_val rid)) False"
  shows "put config validate now rid item st = ((readStorage st)[i := q], succeed q)"
  using put_present [OF assms(1) assms(3), of validate] assms(2)
  by (cases "validate (readStorage st) q = Valid") auto

lemma fld_addTimestamps_plain:
  "plain_field config key \<Longrightarrow>
     fld (addTimestamps config n1 n2 x False) key = fld x key"
  by (auto simp: plain_field_def addTimestamps_def fld_def Let_def split: option.splits)

lemma fld_map_add: "fld (a ++ b) key = (case b key of None \<Rightarrow> fld a key | Some v \<Rightarrow> v)"
  by (simp add: fld_def map_add_def split: option.splits)

lemma fld_readStorage_clean:
  "i < length (readStorage st) \<Longrightarrow> jsonify_val (fld (readStorage st ! i) key) = fld (readStorage st ! i) key"
  by (simp add: readStorage_def fld_jsonify)

lemma patch_field:
  assumes t: "getById config rid st = Some t"
    and ok: "success (snd (patch config validate now rid updates st))"
    and apart: "timestamps_apart config" and plain: "plain_field config key"
  shows "\<exists>t'. getById config rid (fst (patch config validate now rid updates st)) = Some t'
            \<and> fld t' key = (case updates key of None \<Rightarrow> fld t key | Some v \<Rightarrow> jsonify_val v)"
proof -
  from getById_find [OF t] obtain i
    where i: "findIndex (\<lambda>x. strict_eq (fld x (getIdField config)) (id_val rid)) (readStorage st) = Some i"
      and ti: "readStorage st ! i = t" by blast
  define q where "q = addTimestamps config now now
               (((readStorage st ! i) ++ updates)(getIdField config \<mapsto> id_val rid)) False"
  have p: "patch config validate now rid updates st = ((readStorage st)[i := q], succeed q)"
    using i ok q_def by (rule patch_success)
  have qid: "fld q (getIdField config) = id_val rid"
    unfolding q_def using apart by (simp add: fld_addTimestamps_id) (simp add: fld_def)
  have g: "getById config rid (fst (patch config validate now rid updates st)) = Some (jsonify q)"
    unfolding p fst_conv using i qid by (rule getById_after_update)
  from plain have keyid: "key \<noteq> getIdField config" by (simp add: plain_field_def)
  have "fld q key = fld (t ++ updates) key"
    unfolding q_def ti using plain keyid by (simp add: fld_addTimestamps_plain) (simp add: fld_def)
  then have "fld (jsonify q) key = (case updates key of None \<Rightarrow> jsonify_val (fld t key) | Some v \<Rightarrow> jsonify_val v)"
    by (simp add: fld_jsonify fld_map_add split: option.splits)
  moreover have "jsonify_val (fld t key) = fld t key"
    using fld_readStorage_clean [of i st key] findIndex_Some [OF i] ti by simp
  ultimately show ?thesis using g by (simp split: option.splits)
qed


subsection \<open>Updates of the object stores\<close>

lemma map_of_store_put_same [simp]: "map_of (store_put k v store) k = Some v"
  by (induction store) auto

lemma map_of_store_put_other: "k' \<noteq> k \<Longrightarrow> map_of (store_put k v store) k' = map_of store k'"
  by (induction store) auto

lemma updateTask_stored:
  assumes "db_get (TASKS db) taskId = Some task" and "fld task ''id'' = JStr taskId"
    and "updates ''id'' = None"
  shows "db_get (TASKS (updateTask now taskId updates db)) taskId
           = Some ((task ++ updates)(''updatedAt'' \<mapsto> JDate now))"
proof -
  have "fld ((task ++ updates)(''updatedAt'' \<mapsto> JDate now)) ''id'' = JStr taskId"
    using assms(2,3) by (simp add: fld_def map_add_def)
  then show ?thesis
    using assms(1) by (simp add: updateTask_def Let_def db_put_def db_get_def)
qed

lemma updateTask_field:
  assumes "db_get (TASKS db) taskId = Some task" and "fld task ''id'' = JStr taskId"
    and "updates ''id'' = None" and "key \<noteq> ''updatedAt''"
  shows "\<exists>task'. db_get (TASKS (updateTask now taskId updates db)) taskId = Some task'
            \<and> fld task' key = (case updates key of None \<Rightarrow> fld task key | Some v \<Rightarrow> v)"
  using updateTask_stored [of db taskId task updates now] assms
  by (simp add: fld_def map_add_def split: option.splits)

lemma handleToggleComplete_needsSync:
  assumes "find (\<lambda>t. strict_eq (fld t ''id'') (JStr taskId)) (tasks s) \<noteq> None"
    and "db_get (TASKS db) taskId = Some task" and "fld task ''id'' = JStr taskId"
  shows "\<exists>task'. db_get (TASKS (snd (handleToggleComplete now taskId (s, db)))) taskId = Some task'
            \<and> fld task' ''needsSync'' = JBool (\<not> isConnected s)"
proof -
  from assms(1) obtain t where t: "find (\<lambda>t. strict_eq (fld t ''id'') (JStr taskId)) (tasks s) = Some t"
    by blast
  define newStatus where
    "newStatus = (if strict_eq (fld t ''status'') (JStr ''completed'') then ''pending'' else ''completed'')"
  define updates :: obj where
    "updates = [''status'' \<mapsto> JStr newStatus,
                ''isOffline'' \<mapsto> JBool (\<not> isConnected s),
                ''needsSync'' \<mapsto> JBool (\<not> isConnected s)]"
  have h: "snd (handleToggleComplete now taskId (s, db)) = updateTask now taskId updates db"
    using t by (simp add: handleToggleComplete_def Let_def updates_def newStatus_def)
  have u: "updates ''id'' = None" "updates ''needsSync'' = Some (JBool (\<not> isConnected s))"
    by (simp_all add: updates_def)
  from updateTask_field [of db taskId task updates "''needsSync''" now] assms(2,3) u
  show ?thesis unfolding h by simp
qed

text \<open>
  C4 (as amended). A local partial update leaves \<open>needsSync\<close> as its payload says. After a
  successful \<open>patch\<close>, and after \<open>updateTask\<close>, the stored record's \<open>needsSync\<close> is the
  payload's value if the payload has one and the value the record had before otherwise;
  so a synced record patched with \<open>{status: 'completed'}\<close> keeps \<open>needsSync\<close> false.
  \<open>handleToggleComplete\<close> passes \<open>needsSync: !isConnected\<close>: the toggled task is dirty again
  exactly when the toggle is made offline.
\<close>

theorem local_update_needsSync:
  "(getById config rid st = Some t
      \<and> success (snd (patch config validate now rid updates st))
      \<and> timestamps_apart config \<and> plain_field config ''needsSync'' \<longrightarrow>
      (\<exists>t'. getById config rid (fst (patch config validate now rid updates st)) = Some t'
           \<and> fld t' ''needsSync''
               = (case updates ''needsSync'' of None \<Rightarrow> fld t ''needsSync'' | Some v \<Rightarrow> jsonify_val v)))
   \<and> (db_get (TASKS db) taskId = Some task \<and> fld task ''id'' = JStr taskId
        \<and> updates ''id'' = None \<longrightarrow>
      (\<exists>task'. db_get (TASKS (updateTask now taskId updates db)) taskId = Some task'
           \<and> fld task' ''needsSync''
               = (case updates ''needsSync'' of None \<Rightarrow> fld task ''needsSync'' | Some v \<Rightarrow> v)))
   \<and> (find (\<lambda>t. strict_eq (fld t ''id'') (JStr taskId)) (tasks s) \<noteq> None
        \<and> db_get (TASKS db) taskId = Some task \<and> fld task ''id'' = JStr taskId \<longrightarrow>
      (\<exists>task'. db_get (TASKS (snd (handleToggleComplete now taskId (s, db)))) taskId = Some task'
           \<and> fld task' ''needsSync'' = JBool (\<not> isConnected s)))"
  using patch_field [of config rid st t validate now updates "''needsSync''"]
    updateTask_field [of db taskId task updates "''needsSync''" now]
    handleToggleComplete_needsSync [of taskId s db task now]
  by simp


lemma stored_fieldI:
  "\<exists>t'. r = Some t' \<and> fld t' key = v \<Longrightarrow> stored_field key r = Some v"
  by (auto simp: stored_field_def)

lemma sampleConfig_plain_needsSync: "plain_field sampleConfig ''needsSync''"
  by (simp add: plain_field_def) (simp add: sampleConfig_def constructor_def)

lemma sampleStore_task2:
  "getById sampleConfig (IdStr ''task-2'') sampleStore = Some (jsonify sampleTask2)"
  by (simp add: getById_def readStorage_def sampleStore_def fld_jsonify)
     (simp add: fld_def sampleTask1_def sampleTask2_def)

lemma sampleStore_task2_index:
  "findIndex (\<lambda>x. strict_eq (fld x (getIdField sampleConfig)) (id_val (IdStr ''task-2'')))
     (readStorage sampleStore) = Some 1"
  by (simp add: readStorage_def sampleStore_def fld_jsonify)
     (simp add: fld_def sampleTask1_def sampleTask2_def)

lemma sample_patch_succeeds:
  "success (snd (patch sampleConfig validate_default sampleNow (IdStr ''task-2'') markCompleted sampleStore))"
  using patch_present [OF sampleStore_task2_index refl, of validate_default sampleNow markCompleted]
  by (simp add: validate_default_def succeed_def)

lemma sampleDb_task2: "db_get (TASKS sampleDb) ''task-2'' = Some sampleTask2"
  by (simp add: db_get_def sampleDb_stores)

lemma sampleTask2_id: "fld sampleTask2 ''id'' = JStr ''task-2''"
  by (simp add: fld_def sampleTask2_def)

lemma sampleScreen_has_task2:
  "find (\<lambda>t. strict_eq (fld t ''id'') (JStr ''task-2'')) (tasks (sampleScreen c)) \<noteq> None"
  by (simp add: sampleScreen_def sampleTask2_id)

lemma markCompleted_keys: "markCompleted ''id'' = None" "markCompleted ''needsSync'' = None"
  by (simp_all add: markCompleted_def)

theorem local_update_needsSync_witness:
  "stored_field ''needsSync''
     (getById sampleConfig (IdStr ''task-2'')
        (fst (patch sampleConfig validate_default sampleNow (IdStr ''task-2'') markCompleted sampleStore)))
     = Some (JBool False)
   \<and> stored_field ''needsSync''
       (db_get (TASKS (snd (handleToggleComplete sampleNow ''task-2'' (sampleScreen False, sampleDb))))
          ''task-2'')
     = Some (JBool True)"
proof -
  note inst = local_update_needsSync [of sampleConfig "IdStr ''task-2''" sampleStore "jsonify sampleTask2"
      validate_default sampleNow markCompleted sampleDb "''task-2''" sampleTask2 "sampleScreen False"]
  have ns: "fld (jsonify sampleTask2) ''needsSync'' = JBool False"
    by (simp add: fld_jsonify sample_sync_fields)
  from inst sampleStore_task2 sample_patch_succeeds sampleConfig_apart sampleConfig_plain_needsSync
  have "\<exists>t'. getById sampleConfig (IdStr ''task-2'')
        (fst (patch sampleConfig validate_default sampleNow (IdStr ''task-2'') markCompleted sampleStore)) = Some t'
      \<and> fld t' ''needsSync'' = JBool False"
    by (simp add: markCompleted_keys ns)
  moreover from inst sampleScreen_has_task2 sampleDb_task2 sampleTask2_id
  have "\<exists>task'. db_get (TASKS (snd (handleToggleComplete sampleNow ''task-2'' (sampleScreen False, sampleDb))))
          ''task-2'' = Some task' \<and> fld task' ''needsSync'' = JBool True"
    by (simp add: sampleScreen_def)
  ultimately show ?thesis
    by (simp add: stored_fieldI)
qed

text \<open>
  The claim as it stands fails on the synced sample task: after \<open>patch\<close>, after
  \<open>updateTask\<close> and after an online toggle its \<open>needsSync\<close> is still false.
\<close>

theorem synced_task_patched_counterexample:
  "stored_field ''syncStatus'' (getById sampleConfig (IdStr ''task-2'') sampleStore) = Some (JStr ''synced'')
   \<and> stored_field ''needsSync'' (getById sampleConfig (IdStr ''task-2'') sampleStore) = Some (JBool False)
   \<and> success (snd (patch sampleConfig validate_default sampleNow (IdStr ''task-2'') markCompleted sampleStore))
   \<and> stored_field ''needsSync''
       (getById sampleConfig (IdStr ''task-2'')
          (fst (patch sampleConfig validate_default sampleNow (IdStr ''task-2'') markCompleted sampleStore)))
     = Some (JBool False)
   \<and> stored_field ''needsSync''
       (db_get (TASKS (updateTask sampleNow ''task-2'' markCompleted sampleDb)) ''task-2'')
     = Some (JBool False)
   \<and> stored_field ''needsSync''
       (db_get (TASKS (snd (handleToggleComplete sampleNow ''task-2'' (sampleScreen True, sampleDb))))
          ''task-2'')
     = Some (JBool False)"
proof -
  have a: "stored_field ''syncStatus'' (getById sampleConfig (IdStr ''task-2'') sampleStore) = Some (JStr ''synced'')"
    "stored_field ''needsSync'' (getById sampleConfig (IdStr ''task-2'') sampleStore) = Some (JBool False)"
    by (simp_all add: sampleStore_task2 stored_field_def fld_jsonify sample_sync_fields)
  have ns: "fld (jsonify sampleTask2) ''needsSync'' = JBool False"
    by (simp add: fld_jsonify sample_sync_fields)
  have b: "stored_field ''needsSync''
       (getById sampleConfig (IdStr ''task-2'')
          (fst (patch sampleConfig validate_default sampleNow (IdStr ''task-2'') markCompleted sampleStore)))
     = Some (JBool False)"
    using patch_field [OF sampleStore_task2 sample_patch_succeeds sampleConfig_apart
        sampleConfig_plain_needsSync]
    by (intro stored_fieldI) (simp add: markCompleted_keys ns)
  have c: "stored_field ''needsSync''
       (db_get (TASKS (updateTask sampleNow ''task-2'' markCompleted sampleDb)) ''task-2'')
     = Some (JBool False)"
    using updateTask_field [of sampleDb "''task-2''" sampleTask2 markCompleted "''needsSync''" sampleNow]
      sampleDb_task2 sampleTask2_id
    by (intro stored_fieldI) (simp add: markCompleted_keys sample_sync_fields)
  have d: "stored_field ''needsSync''
       (db_get (TASKS (snd (handleToggleComplete sampleNow ''task-2'' (sampleScreen True, sampleDb))))
          ''task-2'')
     = Some (JBool False)"
    using handleToggleComplete_needsSync [of "''task-2''" "sampleScreen True" sampleDb sampleTask2 sampleNow]
      sampleScreen_has_task2 sampleDb_task2 sampleTask2_id
    by (intro stored_fieldI) (simp add: sampleScreen_def)
  from a sample_patch_succeeds b c d show ?thesis by simp
qed

subsection \<open>The updatedAt stamp\<close>

lemma success_found:
  "success (snd (put config validate now rid item st)) \<Longrightarrow>
     \<exists>i. findIndex (\<lambda>x. strict_eq (fld x (getIdField config)) (id_val rid)) (readStorage st) = Some i"
  "success (snd (patch config validate now rid updates st)) \<Longrightarrow>
     \<exists>i. findIndex (\<lambda>x. strict_eq (fld x (getIdField config)) (id_val rid)) (readStorage st) = Some i"
  by (auto simp: put_def patch_def Let_def failure_def split: option.splits)

lemma fld_addTimestamps_updatedAt:
  "timestampFields config = Some tf \<Longrightarrow> updatedAt tf = Some u \<Longrightarrow> u \<noteq> [] \<Longrightarrow>
     fld (addTimestamps config n1 n2 x isNew) u = JStr n2"
  by (simp add: addTimestamps_def fld_def Let_def split: option.splits)

lemma stored_after_update:
  assumes "findIndex p (readStorage st) = Some i"
  shows "jsonify q \<in> set (readStorage ((readStorage st)[i := q]))"
  unfolding readStorage_update using findIndex_Some [OF assms] by (simp add: set_update_memI)

lemma put_stamps:
  assumes "timestampFields config = Some tf" "updatedAt tf = Some u" "u \<noteq> []"
    and ok: "success (snd (put config validate now rid item st))"
  shows "\<exists>q. data (snd (put config validate now rid item st)) = Some q
           \<and> fld q u = JStr now
           \<and> jsonify q \<in> set (readStorage (fst (put config validate now rid item st)))"
proof -
  from success_found(1) [OF ok] obtain i
    where i: "findIndex (\<lambda>x. strict_eq (fld x (getIdField config)) (id_val rid)) (readStorage st) = Some i"
    by blast
  define q where "q = addTimestamps config now now (item(getIdField config \<mapsto> id_val rid)) False"
  have p: "put config validate now rid item st = ((readStorage st)[i := q], succeed q)"
    using i ok q_def by (rule put_success)
  have "fld q u = JStr now"
    unfolding q_def using assms(1-3) by (rule fld_addTimestamps_updatedAt)
  then show ?thesis
    unfolding p using stored_after_update [OF i, of q] by (simp add: succeed_def)
qed

lemma patch_stamps:
  assumes "timestampFields config = Some tf" "updatedAt tf = Some u" "u \<noteq> []"
    and ok: "success (snd (patch config validate now rid updates st))"
  shows "\<exists>q. data (snd (patch config validate now rid updates st)) = Some q
           \<and> fld q u = JStr now
           \<and> jsonify q \<in> set (readStorage (fst (patch config validate now rid updates st)))"
proof -
  from success_found(2) [OF ok] obtain i
    where i: "findIndex (\<lambda>x. strict_eq (fld x (getIdField config)) (id_val rid)) (readStorage st) = Some i"
    by blast
  define q where "q = addTimestamps config now now
      (((readStorage st ! i) ++ updates)(getIdField config \<mapsto> id_val rid)) False"
  have p: "patch config validate now rid updates st = ((readStorage st)[i := q], succeed q)"
    using i ok q_def by (rule patch_success)
  have "fld q u = JStr now"
    unfolding q_def using assms(1-3) by (rule fld_addTimestamps_updatedAt)
  then show ?thesis
    unfolding p using stored_after_update [OF i, of q] by (simp add: succeed_def)
qed

lemma updateTask_stamps:
  assumes "db_get (TASKS db) taskId = Some task" and "fld task ''id'' = JStr taskId"
    and "updates ''id'' = None"
  shows "stored_field ''updatedAt'' (db_get (TASKS (updateTask now taskId updates db)) taskId)
           = Some (JDate now)"
  using updateTask_stored [of db taskId task updates now] assms
  by (simp add: stored_field_def fld_def)

lemma updateEvidence_stored:
  assumes "db_get (EVIDENCE db) evidenceId = Some ev" and "fld ev ''id'' = JStr evidenceId"
    and "updates ''id'' = None"
  shows "db_get (EVIDENCE (updateEvidence evidenceId updates db)) evidenceId = Some (ev ++ updates)"
proof -
  have "fld (ev ++ updates) ''id'' = JStr evidenceId"
    using assms(2,3) by (simp add: fld_def map_add_def)
  then show ?thesis
    using assms(1) by (simp add: updateEvidence_def Let_def db_put_def db_get_def)
qed

lemma updateEvidence_field:
  assumes "db_get (EVIDENCE db) evidenceId = Some ev" and "fld ev ''id'' = JStr evidenceId"
    and "updates ''id'' = None"
  shows "stored_field key (db_get (EVIDENCE (updateEvidence evidenceId updates db)) evidenceId)
           = Some (case updates key of None \<Rightarrow> fld ev key | Some v \<Rightarrow> v)"
  using updateEvidence_stored [of db evidenceId ev updates] assms
  by (simp add: stored_field_def fld_map_add)

text \<open>
  C9 (as amended). A successful \<open>put\<close> and a successful \<open>patch\<close>, under a configuration that
  names an \<open>updatedAt\<close> property (the default does), return and store a record whose
  \<open>updatedAt\<close> is the time of the call; \<open>updateTask\<close> stores \<open>updatedAt\<close> as the time of the
  call whatever the payload, so also for an update of sync bookkeeping only.
  \<open>updateEvidence\<close> stores the record overlaid with the payload and stamps nothing:
  \<open>updatedAt\<close> is the payload's if it has one, otherwise what the record had.
\<close>

theorem updatedAt_refreshed:
  "(timestampFields config = Some tf \<and> updatedAt tf = Some u \<and> u \<noteq> []
      \<and> success (snd (put config validate now rid item st)) \<longrightarrow>
      (\<exists>q. data (snd (put config validate now rid item st)) = Some q
          \<and> fld q u = JStr now
          \<and> jsonify q \<in> set (readStorage (fst (put config validate now rid item st)))))
   \<and> (timestampFields config = Some tf \<and> updatedAt tf = Some u \<and> u \<noteq> []
      \<and> success (snd (patch config validate now rid updates st)) \<longrightarrow>
      (\<exists>q. data (snd (patch config validate now rid updates st)) = Some q
          \<and> fld q u = JStr now
          \<and> jsonify q \<in> set (readStorage (fst (patch config validate now rid updates st)))))
   \<and> (db_get (TASKS db) taskId = Some task \<and> fld task ''id'' = JStr taskId
        \<and> updates ''id'' = None \<longrightarrow>
      stored_field ''updatedAt'' (db_get (TASKS (updateTask now taskId updates db)) taskId)
        = Some (JDate now))
   \<and> (db_get (EVIDENCE db) evidenceId = Some ev \<and> fld ev ''id'' = JStr evidenceId
        \<and> updates ''id'' = None \<longrightarrow>
      stored_field ''updatedAt'' (db_get (EVIDENCE (updateEvidence evidenceId updates db)) evidenceId)
        = Some (case updates ''updatedAt'' of None \<Rightarrow> fld ev ''updatedAt'' | Some v \<Rightarrow> v))"
  using put_stamps [of config tf u validate now rid item st]
    patch_stamps [of config tf u validate now rid updates st]
    updateTask_stamps [of db taskId task updates now]
    updateEvidence_field [of db evidenceId ev updates "''updatedAt''"]
  by blast


lemma sample_put_succeeds:
  "success (snd (put sampleConfig validate_default sampleNow (IdStr ''task-2'') markCompleted sampleStore))"
  using put_present [OF sampleStore_task2_index refl, of validate_default sampleNow markCompleted]
  by (simp add: validate_default_def succeed_def)

lemma sampleConfig_timestamps:
  "timestampFields sampleConfig = Some \<lparr>createdAt = Some ''createdAt'', updatedAt = Some ''updatedAt''\<rparr>"
  by (simp add: sampleConfig_def constructor_def)

lemma sampleDb_task1: "db_get (TASKS sampleDb) ''task-1'' = Some sampleTask1"
  by (simp add: db_get_def sampleDb_stores)

lemma sampleDb_evidence1: "db_get (EVIDENCE sampleDb) ''evidence-1'' = Some sampleEvidence1"
  by (simp add: db_get_def sampleDb_stores)

lemma sample_ids:
  "fld sampleTask1 ''id'' = JStr ''task-1''" "fld sampleEvidence1 ''id'' = JStr ''evidence-1''"
  by (simp_all add: fld_def sampleTask1_def sampleEvidence1_def)

lemma sampleEvidence1_updatedAt: "fld sampleEvidence1 ''updatedAt'' = JUndefined"
  by (simp add: fld_def sampleEvidence1_def)

lemma syncPayload_keys:
  "syncPayload u ''id'' = None" "syncPayload u ''updatedAt'' = None"
  by (cases u; simp)+

theorem updatedAt_refreshed_witness:
  "stored_field ''updatedAt''
     (data (snd (put sampleConfig validate_default sampleNow (IdStr ''task-2'') markCompleted sampleStore)))
     = Some (JStr sampleNow)
   \<and> stored_field ''updatedAt''
       (data (snd (patch sampleConfig validate_default sampleNow (IdStr ''task-2'') markCompleted sampleStore)))
     = Some (JStr sampleNow)
   \<and> stored_field ''updatedAt''
       (db_get (TASKS (updateTask sampleNow ''task-1'' (syncPayload (MarkSynced sampleNow)) sampleDb))
          ''task-1'')
     = Some (JDate sampleNow)
   \<and> stored_field ''updatedAt''
       (db_get (EVIDENCE (updateEvidence ''evidence-1'' (syncPayload (MarkSynced sampleNow)) sampleDb))
          ''evidence-1'')
     = Some JUndefined"
proof -
  note inst = updatedAt_refreshed [where config = sampleConfig
      and tf = "\<lparr>createdAt = Some ''createdAt'', updatedAt = Some ''updatedAt''\<rparr>"
      and u = "''updatedAt''" and validate = validate_default and now = sampleNow
      and rid = "IdStr ''task-2''" and item = markCompleted and st = sampleStore
      and updates = markCompleted and db = sampleDb and taskId = "''task-2''" and task = sampleTask2
      and evidenceId = "''evidence-1''" and ev = sampleEvidence1]
  have a: "\<exists>q. data (snd (put sampleConfig validate_default sampleNow (IdStr ''task-2'') markCompleted sampleStore)) = Some q
      \<and> fld q ''updatedAt'' = JStr sampleNow"
    using inst sampleConfig_timestamps sample_put_succeeds by auto
  have b: "\<exists>q. data (snd (patch sampleConfig validate_default sampleNow (IdStr ''task-2'') markCompleted sampleStore)) = Some q
      \<and> fld q ''updatedAt'' = JStr sampleNow"
    using inst sampleConfig_timestamps sample_patch_succeeds by auto
  note inst2 = updatedAt_refreshed [where config = sampleConfig
      and tf = "\<lparr>createdAt = Some ''createdAt'', updatedAt = Some ''updatedAt''\<rparr>"
      and u = "''updatedAt''" and validate = validate_default and now = sampleNow
      and rid = "IdStr ''task-2''" and item = markCompleted and st = sampleStore
      and updates = "syncPayload (MarkSynced sampleNow)" and db = sampleDb
      and taskId = "''task-1''" and task = sampleTask1
      and evidenceId = "''evidence-1''" and ev = sampleEvidence1]
  have c: "stored_field ''updatedAt''
       (db_get (TASKS (updateTask sampleNow ''task-1'' (syncPayload (MarkSynced sampleNow)) sampleDb))
          ''task-1'') = Some (JDate sampleNow)"
    using inst2 sampleDb_task1 sample_ids syncPayload_keys by blast
  have d: "stored_field ''updatedAt''
       (db_get (EVIDENCE (updateEvidence ''evidence-1'' (syncPayload (MarkSynced sampleNow)) sampleDb))
          ''evidence-1'') = Some JUndefined"
    using inst2 sampleDb_evidence1 sample_ids
    by (simp add: syncPayload_keys sampleEvidence1_updatedAt del: syncPayload.simps)
  from a b c d show ?thesis by (simp add: stored_fieldI)
qed

text \<open>
  The claim as it stands fails for \<open>updateEvidence\<close>: marking the pending sample evidence
  as synced changes its \<open>syncStatus\<close> and leaves it without any \<open>updatedAt\<close>.
\<close>

theorem updateEvidence_no_stamp_counterexample:
  "stored_field ''syncStatus'' (db_get (EVIDENCE sampleDb) ''evidence-1'') = Some (JStr ''pending'')
   \<and> stored_field ''syncStatus''
       (db_get (EVIDENCE (updateEvidence ''evidence-1'' (syncPayload (MarkSynced sampleNow)) sampleDb))
          ''evidence-1'')
     = Some (JStr ''synced'')
   \<and> stored_field ''updatedAt''
       (db_get (EVIDENCE (updateEvidence ''evidence-1'' (syncPayload (MarkSynced sampleNow)) sampleDb))
          ''evidence-1'')
     = Some JUndefined"
proof -
  have a: "stored_field ''syncStatus'' (db_get (EVIDENCE sampleDb) ''evidence-1'') = Some (JStr ''pending'')"
    by (simp add: sampleDb_evidence1 stored_field_def sample_sync_fields)
  have b: "stored_field key
       (db_get (EVIDENCE (updateEvidence ''evidence-1'' (syncPayload (MarkSynced sampleNow)) sampleDb))
          ''evidence-1'')
     = Some (case syncPayload (MarkSynced sampleNow) key of None \<Rightarrow> fld sampleEvidence1 key | Some v \<Rightarrow> v)" for key
    using updateEvidence_field [of sampleDb "''evidence-1''" sampleEvidence1
        "syncPayload (MarkSynced sampleNow)" key] sampleDb_evidence1 sample_ids(2)
    by (simp add: syncPayload_keys del: syncPayload.simps)
  show ?thesis
    using a b [of "''syncStatus''"] b [of "''updatedAt''"]
    by (simp add: sampleEvidence1_updatedAt)
qed

subsection \<open>Identifiers\<close>

lemma stored_ids_update:
  assumes "findIndex (\<lambda>x. strict_eq (fld x (getIdField config)) (id_val rid)) (readStorage st) = Some i"
    and "fld q (getIdField config) = id_val rid"
  shows "stored_ids config ((readStorage st)[i := q]) = stored_ids config st"
proof -
  from findIndex_Some [OF assms(1)]
  have i: "i < length (readStorage st)" "fld (readStorage st ! i) (getIdField config) = id_val rid"
    by simp_all
  have "fld (jsonify q) (getIdField config) = id_val rid"
    using assms(2) by (cases rid) (simp_all add: fld_jsonify)
  then have "stored_ids config ((readStorage st)[i := q])
      = (map (\<lambda>r. fld r (getIdField config)) (readStorage st))[i := id_val rid]"
    by (simp add: stored_ids_def readStorage_update map_update)
  also have "\<dots> = map (\<lambda>r. fld r (getIdField config)) (readStorage st)"
    using i by (intro nth_equalityI) (auto simp add: nth_list_update)
  finally show ?thesis by (simp add: stored_ids_def)
qed

lemma put_keeps_ids:
  assumes "timestamps_apart config"
  shows "stored_ids config (fst (put config validate now rid item st)) = stored_ids config st"
proof (cases "findIndex (\<lambda>x. strict_eq (fld x (getIdField config)) (id_val rid)) (readStorage st)")
  case None
  then show ?thesis by (simp add: put_def Let_def)
next
  case (Some i)
  define q where "q = addTimestamps config now now (item(getIdField config \<mapsto> id_val rid)) False"
  have qid: "fld q (getIdField config) = id_val rid"
    unfolding q_def using assms by (simp add: fld_addTimestamps_id) (simp add: fld_def)
  show ?thesis
  proof (cases "validate (readStorage st) q = Valid")
    case True
    with put_present [OF Some q_def, of validate]
    have "fst (put config validate now rid item st) = (readStorage st)[i := q]" by simp
    with stored_ids_update [OF Some qid] show ?thesis by simp
  next
    case False
    with put_present [OF Some q_def, of validate] show ?thesis by simp
  qed
qed

lemma patch_keeps_ids:
  assumes "timestamps_apart config"
  shows "stored_ids config (fst (patch config validate now rid updates st)) = stored_ids config st"
proof (cases "findIndex (\<lambda>x. strict_eq (fld x (getIdField config)) (id_val rid)) (readStorage st)")
  case None
  then show ?thesis by (simp add: patch_def Let_def)
next
  case (Some i)
  define q where "q = addTimestamps config now now
      (((readStorage st ! i) ++ updates)(getIdField config \<mapsto> id_val rid)) False"
  have qid: "fld q (getIdField config) = id_val rid"
    unfolding q_def using assms by (simp add: fld_addTimestamps_id) (simp add: fld_def)
  show ?thesis
  proof (cases "validate (readStorage st) q = Valid")
    case True
    with patch_present [OF Some q_def, of validate]
    have "fst (patch config validate now rid updates st) = (readStorage st)[i := q]" by simp
    with stored_ids_update [OF Some qid] show ?thesis by simp
  next
    case False
    with patch_present [OF Some q_def, of validate] show ?thesis by simp
  qed
qed

lemma newItemOf_id:
  "timestamps_apart config \<Longrightarrow>
     jsonify_val (fld (newItemOf config e item) (getIdField config)) = new_id config e item"
  by (simp add: newItemOf_def Let_def fld_addTimestamps_id new_id_def) (simp add: fld_def)

lemma create_ids:
  assumes "timestamps_apart config"
  shows "(success (snd (create config validate e item st)) \<longrightarrow>
            stored_ids config (fst (create config validate e item st))
              = stored_ids config st @ [new_id config e item])
       \<and> (\<not> success (snd (create config validate e item st)) \<longrightarrow>
            fst (create config validate e item st) = st)"
proof (cases "validate (readStorage st) (newItemOf config e item)")
  case Valid
  then have "create config validate e item st
      = (readStorage st @ [newItemOf config e item], succeed (newItemOf config e item))"
    by (simp add: create_def Let_def writeStorage_def)
  then show ?thesis
    using newItemOf_id [OF assms, of e item]
    by (simp add: stored_ids_def succeed_def) (simp add: readStorage_def fld_jsonify)
next
  case (Invalid err)
  then show ?thesis by (simp add: create_def Let_def failure_def)
next
  case (Throws msg)
  then show ?thesis by (simp add: create_def Let_def failure_def)
qed

text \<open>
  C6 (as amended). Under a configuration whose timestamp properties are not the identifier
  property: \<open>put\<close> and \<open>patch\<close>, whether they succeed or fail, leave the list of stored
  identifiers as it was; a \<open>create\<close> that fails writes nothing; a \<open>create\<close> that succeeds
  appends one record, stored with the caller's identifier if the item has one and with the
  generated one otherwise, without comparing it with the stored ones, so that the
  identifiers are unique afterwards exactly when they were unique before and the new one
  is not among them.
\<close>

theorem ids_under_create_put_patch:
  "timestamps_apart config \<longrightarrow>
     stored_ids config (fst (put config validate now rid item st)) = stored_ids config st
   \<and> stored_ids config (fst (patch config validate now rid updates st)) = stored_ids config st
   \<and> (\<not> success (snd (create config validate e item st)) \<longrightarrow>
         fst (create config validate e item st) = st)
   \<and> (success (snd (create config validate e item st)) \<longrightarrow>
         stored_ids config (fst (create config validate e item st))
           = stored_ids config st @ [new_id config e item]
       \<and> distinct (stored_ids config (fst (create config validate e item st)))
           = (distinct (stored_ids config st) \<and> new_id config e item \<notin> set (stored_ids config st)))"
proof
  assume a: "timestamps_apart config"
  from create_ids [OF a, of validate e item st]
  have "success (snd (create config validate e item st)) \<longrightarrow>
         stored_ids config (fst (create config validate e item st))
           = stored_ids config st @ [new_id config e item]
       \<and> distinct (stored_ids config (fst (create config validate e item st)))
           = (distinct (stored_ids config st) \<and> new_id config e item \<notin> set (stored_ids config st))"
    by auto
  with put_keeps_ids [OF a, of validate now rid item st]
    patch_keeps_ids [OF a, of validate now rid updates st]
    create_ids [OF a, of validate e item st]
  show "stored_ids config (fst (put config validate now rid item st)) = stored_ids config st
   \<and> stored_ids config (fst (patch config validate now rid updates st)) = stored_ids config st
   \<and> (\<not> success (snd (create config validate e item st)) \<longrightarrow>
         fst (create config validate e item st) = st)
   \<and> (success (snd (create config validate e item st)) \<longrightarrow>
         stored_ids config (fst (create config validate e item st))
           = stored_ids config st @ [new_id config e item]
       \<and> distinct (stored_ids config (fst (create config validate e item st)))
           = (distinct (stored_ids config st) \<and> new_id config e item \<notin> set (stored_ids config st)))"
    by blast
qed

lemma sampleStore_ids:
  "stored_ids sampleConfig sampleStore = [JStr ''task-1'', JStr ''task-2'', JStr ''task-3'']"
  by (simp add: stored_ids_def readStorage_def sampleStore_def fld_jsonify)
     (simp add: fld_def sampleTask1_def sampleTask2_def sampleTask3_def)

lemma sample_create_succeeds:
  "success (snd (create sampleConfig validate_default e item sampleStore))"
  by (simp add: create_def Let_def validate_default_def succeed_def)

lemma sample_new_ids:
  "new_id sampleConfig sampleEnv duplicateTask = JStr ''task-1''"
  "new_id sampleConfig sampleEnv markCompleted = JStr ''1735725600000_k3x9q2m1z''"
  by (simp_all add: new_id_def has_key_def fld_def duplicateTask_def markCompleted_def sampleEnv_def)

theorem ids_under_create_put_patch_witness:
  "timestamps_apart sampleConfig
   \<and> success (snd (create sampleConfig validate_default sampleEnv markCompleted sampleStore))
   \<and> stored_ids sampleConfig (fst (create sampleConfig validate_default sampleEnv markCompleted sampleStore))
       = [JStr ''task-1'', JStr ''task-2'', JStr ''task-3'', JStr ''1735725600000_k3x9q2m1z'']
   \<and> stored_ids sampleConfig
        (fst (patch sampleConfig validate_default sampleNow (IdStr ''task-2'') markCompleted sampleStore))
       = [JStr ''task-1'', JStr ''task-2'', JStr ''task-3'']"
  using ids_under_create_put_patch [where config = sampleConfig and validate = validate_default
      and now = sampleNow and rid = "IdStr ''task-2''" and item = markCompleted and st = sampleStore
      and updates = markCompleted and e = sampleEnv]
    sampleConfig_apart sample_create_succeeds [of sampleEnv markCompleted]
  by (simp add: sampleStore_ids sample_new_ids)

text \<open>
  The claim as it stands fails: \<open>create\<close> with the identifier of a stored record succeeds
  and leaves two records with that identifier.
\<close>

theorem create_duplicate_id_counterexample:
  "distinct (stored_ids sampleConfig sampleStore)
   \<and> success (snd (create sampleConfig validate_default sampleEnv duplicateTask sampleStore))
   \<and> stored_ids sampleConfig (fst (create sampleConfig validate_default sampleEnv duplicateTask sampleStore))
       = [JStr ''task-1'', JStr ''task-2'', JStr ''task-3'', JStr ''task-1'']
   \<and> \<not> distinct (stored_ids sampleConfig
          (fst (create sampleConfig validate_default sampleEnv duplicateTask sampleStore)))"
  using create_ids [OF sampleConfig_apart, of validate_default sampleEnv duplicateTask sampleStore]
    sample_create_succeeds [of sampleEnv duplicateTask]
  by (simp add: sampleStore_ids sample_new_ids)

subsection \<open>The sync fields under the operations\<close>

lemma in_store_put: "(k', x) \<in> set (store_put k v store) \<Longrightarrow> x = v \<or> (k', x) \<in> set store"
  by (induction store) (auto split: if_splits)

lemma set_store_put: "snd ` set (store_put k v store) \<subseteq> insert v (snd ` set store)"
proof
  fix x assume "x \<in> snd ` set (store_put k v store)"
  then obtain k' where "(k', x) \<in> set (store_put k v store)" by auto
  from in_store_put [OF this] show "x \<in> insert v (snd ` set store)" by force
qed

lemma db_put_consistent:
  assumes "sync_consistent v" "list_all sync_consistent (db_getAll store)"
  shows "list_all sync_consistent (db_getAll (db_put v store))"
proof (cases "idb_key (fld v ''id'')")
  case None
  with assms show ?thesis by (simp add: db_put_def)
next
  case (Some k)
  have "set (db_getAll (store_put k v store)) \<subseteq> insert v (set (db_getAll store))"
    using set_store_put [of k v store] by (simp add: db_getAll_def)
  with assms Some show ?thesis
    by (auto simp: db_put_def list_all_iff)
qed

lemma addTask_consistent:
  "sync_consistent task \<Longrightarrow> db_consistent db \<Longrightarrow> db_consistent (addTask task db)"
  by (simp add: db_consistent_def addTask_def getTasks_def getAllEvidence_def db_put_consistent)

lemma addEvidence_consistent:
  "sync_consistent ev \<Longrightarrow> db_consistent db \<Longrightarrow> db_consistent (addEvidence ev db)"
  by (simp add: db_consistent_def addEvidence_def getTasks_def getAllEvidence_def db_put_consistent)

lemma updateTask_consistent:
  assumes "db_consistent db"
    and "\<And>task. db_get (TASKS db) taskId = Some task \<Longrightarrow>
           sync_consistent ((task ++ updates)(''updatedAt'' \<mapsto> JDate now))"
  shows "db_consistent (updateTask now taskId updates db)"
proof (cases "db_get (TASKS db) taskId")
  case None
  with assms(1) show ?thesis by (simp add: updateTask_def)
next
  case (Some task)
  with assms show ?thesis
    by (simp add: updateTask_def Let_def db_consistent_def getTasks_def getAllEvidence_def
        db_put_consistent)
qed

lemma updateEvidence_consistent:
  assumes "db_consistent db"
    and "\<And>ev. db_get (EVIDENCE db) evidenceId = Some ev \<Longrightarrow> sync_consistent (ev ++ updates)"
  shows "db_consistent (updateEvidence evidenceId updates db)"
proof (cases "db_get (EVIDENCE db) evidenceId")
  case None
  with assms(1) show ?thesis by (simp add: updateEvidence_def)
next
  case (Some ev)
  with assms show ?thesis
    by (simp add: updateEvidence_def Let_def db_consistent_def getTasks_def getAllEvidence_def
        db_put_consistent)
qed

lemma needsSync_true_consistent: "fld r ''needsSync'' = JBool True \<Longrightarrow> sync_consistent r"
  by (simp add: sync_consistent_def)

lemma handleAddTask_offline:
  assumes "db_consistent db" "\<not> isConnected s"
  shows "db_consistent (snd (handleAddTask trim e (s, db)))"
  using assms
  by (auto simp: handleAddTask_def Let_def intro!: addTask_consistent needsSync_true_consistent)
     (simp_all add: fld_def)

lemma handleToggleComplete_offline:
  assumes "db_consistent db" "\<not> isConnected s"
  shows "db_consistent (snd (handleToggleComplete now taskId (s, db)))"
  using assms
  by (auto simp: handleToggleComplete_def Let_def split: option.splits
           intro!: updateTask_consistent needsSync_true_consistent)
     (simp_all add: fld_def)

lemma handleFileSelect_offline:
  assumes "db_consistent db" "\<not> isConnected s"
  shows "db_consistent (snd (handleFileSelect e file (s, db)))"
  using assms
  by (auto simp: handleFileSelect_def Let_def split: option.splits
           intro!: addEvidence_consistent needsSync_true_consistent)
     (simp_all add: fld_def)

lemma selected_not_clean:
  assumes "sync_consistent r" "selectedForSync r"
  shows "fld r ''needsSync'' \<noteq> JBool False"
  using assms by (auto simp: sync_consistent_def selectedForSync_def)

lemma syncPayload_consistent:
  assumes "fld r ''needsSync'' \<noteq> JBool False"
  shows "sync_consistent (r ++ syncPayload u)"
    and "sync_consistent ((r ++ syncPayload u)(''updatedAt'' \<mapsto> JDate now))"
  using assms by (cases u; simp add: sync_consistent_def fld_def map_add_def)+

lemma stored_task_consistent:
  "db_consistent db \<Longrightarrow> db_get (TASKS db) k = Some t \<Longrightarrow> sync_consistent t"
  by (auto simp: db_consistent_def db_get_def getTasks_def db_getAll_def list_all_iff
      dest!: map_of_SomeD)

lemma stored_evidence_consistent:
  "db_consistent db \<Longrightarrow> db_get (EVIDENCE db) k = Some t \<Longrightarrow> sync_consistent t"
  by (auto simp: db_consistent_def db_get_def getAllEvidence_def db_getAll_def list_all_iff
      dest!: map_of_SomeD)

lemma syncTask_step:
  assumes "db_consistent db"
  shows "db_consistent (snd (step trim (SyncTask now taskId u) (s, db)))"
proof (cases "db_get (TASKS db) taskId")
  case None
  with assms show ?thesis by simp
next
  case (Some task)
  show ?thesis
  proof (cases "selectedForSync task")
    case True
    from stored_task_consistent [OF assms Some] True
    have "fld task ''needsSync'' \<noteq> JBool False" by (rule selected_not_clean)
    then have "sync_consistent ((task ++ syncPayload u)(''updatedAt'' \<mapsto> JDate now))"
      by (rule syncPayload_consistent)
    with Some have "db_consistent (updateTask now taskId (syncPayload u) db)"
      using assms by (intro updateTask_consistent) simp_all
    with Some True show ?thesis by simp
  next
    case False
    with Some assms show ?thesis by simp
  qed
qed

lemma syncEvidence_step:
  assumes "db_consistent db"
  shows "db_consistent (snd (step trim (SyncEvidence evidenceId u) (s, db)))"
proof (cases "db_get (EVIDENCE db) evidenceId")
  case None
  with assms show ?thesis by simp
next
  case (Some ev)
  show ?thesis
  proof (cases "selectedForSync ev")
    case True
    from stored_evidence_consistent [OF assms Some] True
    have "fld ev ''needsSync'' \<noteq> JBool False" by (rule selected_not_clean)
    then have "sync_consistent (ev ++ syncPayload u)"
      by (rule syncPayload_consistent)
    with Some have "db_consistent (updateEvidence evidenceId (syncPayload u) db)"
      using assms by (intro updateEvidence_consistent) simp_all
    with Some True show ?thesis by simp
  next
    case False
    with Some assms show ?thesis by simp
  qed
qed

lemma addTask_stored:
  "fld task ''id'' = JStr k \<Longrightarrow> db_get (TASKS (addTask task db)) k = Some task"
  by (simp add: addTask_def db_put_def db_get_def)

lemma addEvidence_stored:
  "fld ev ''id'' = JStr k \<Longrightarrow> db_get (EVIDENCE (addEvidence ev db)) k = Some ev"
  by (simp add: addEvidence_def db_put_def db_get_def)

lemma handleAddTask_writes:
  assumes "trim (title (newTask s)) \<noteq> []"
  shows "stored_field ''needsSync'' (db_get (TASKS (snd (handleAddTask trim e (s, db)))) (fresh_id e))
           = Some (JBool (\<not> isConnected s))
       \<and> stored_field ''syncStatus'' (db_get (TASKS (snd (handleAddTask trim e (s, db)))) (fresh_id e))
           = Some JUndefined"
proof -
  from assms obtain task where h: "snd (handleAddTask trim e (s, db)) = addTask task db"
    and t: "fld task ''id'' = JStr (fresh_id e)" "fld task ''needsSync'' = JBool (\<not> isConnected s)"
      "fld task ''syncStatus'' = JUndefined"
    by (simp add: handleAddTask_def Let_def fld_def)
  show ?thesis
    unfolding h using addTask_stored [OF t(1), of db] t(2,3) by (simp add: stored_field_def)
qed

lemma handleFileSelect_writes:
  assumes "selectedTaskId s = Some taskId" "taskId \<noteq> []"
  shows "stored_field ''needsSync''
           (db_get (EVIDENCE (snd (handleFileSelect e f (s, db)))) (''evidence-'' @ fresh_id e))
           = Some (JBool (\<not> isConnected s))
       \<and> stored_field ''syncStatus''
           (db_get (EVIDENCE (snd (handleFileSelect e f (s, db)))) (''evidence-'' @ fresh_id e))
           = Some (JStr ''pending'')"
proof -
  from assms obtain ev where h: "snd (handleFileSelect e f (s, db)) = addEvidence ev db"
    and t: "fld ev ''id'' = JStr (''evidence-'' @ fresh_id e)"
      "fld ev ''needsSync'' = JBool (\<not> isConnected s)"
      "fld ev ''syncStatus'' = JStr ''pending''"
    by (simp add: handleFileSelect_def Let_def fld_def)
  show ?thesis
    unfolding h using addEvidence_stored [OF t(1), of db] t(2,3) by (simp add: stored_field_def)
qed

lemma handleToggleComplete_writes:
  assumes "find (\<lambda>t. strict_eq (fld t ''id'') (JStr taskId)) (tasks s) \<noteq> None"
    and "db_get (TASKS db) taskId = Some task" and "fld task ''id'' = JStr taskId"
  shows "stored_field ''needsSync'' (db_get (TASKS (snd (handleToggleComplete now taskId (s, db)))) taskId)
           = Some (JBool (\<not> isConnected s))
       \<and> stored_field ''syncStatus'' (db_get (TASKS (snd (handleToggleComplete now taskId (s, db)))) taskId)
           = Some (fld task ''syncStatus'')"
proof -
  from assms(1) obtain t where t: "find (\<lambda>t. strict_eq (fld t ''id'') (JStr taskId)) (tasks s) = Some t"
    by blast
  define newStatus where
    "newStatus = (if strict_eq (fld t ''status'') (JStr ''completed'') then ''pending'' else ''completed'')"
  define updates :: obj where
    "updates = [''status'' \<mapsto> JStr newStatus,
                ''isOffline'' \<mapsto> JBool (\<not> isConnected s),
                ''needsSync'' \<mapsto> JBool (\<not> isConnected s)]"
  have h: "snd (handleToggleComplete now taskId (s, db)) = updateTask now taskId updates db"
    using t by (simp add: handleToggleComplete_def Let_def updates_def newStatus_def)
  have u: "updates ''id'' = None" "updates ''needsSync'' = Some (JBool (\<not> isConnected s))"
    "updates ''syncStatus'' = None"
    by (simp_all add: updates_def)
  from updateTask_field [of db taskId task updates "''needsSync''" now]
    updateTask_field [of db taskId task updates "''syncStatus''" now] assms(2,3) u
  show ?thesis unfolding h by (auto simp: stored_field_def)
qed

text \<open>
  C1 (as amended). Each of the three local operations stores \<open>needsSync\<close> as the negation
  of \<open>isConnected\<close> and does not make \<open>syncStatus\<close> synced: a new task (\<open>handleAddTask\<close>
  stores one when the trimmed title is not empty, and does nothing otherwise) gets no
  \<open>syncStatus\<close>, new evidence gets pending, a toggled task keeps the one it had. So, if in
  every stored task and evidence record \<open>needsSync\<close> false implies \<open>syncStatus\<close> synced,
  the same holds after a local creation, a toggle of a task's completion or an addition of
  evidence made while offline, and after a sync-status update (to syncing, synced or
  failed) of a record selected for sync.
\<close>

theorem sync_consistency_preserved:
  "(db_consistent db \<and> (local_edit a \<longrightarrow> \<not> isConnected s) \<longrightarrow>
      db_consistent (snd (step trim a (s, db))))
   \<and> (trim (title (newTask s)) = [] \<longrightarrow> handleAddTask trim e (s, db) = (s, db))
   \<and> (trim (title (newTask s)) \<noteq> [] \<longrightarrow>
        stored_field ''needsSync'' (db_get (TASKS (snd (handleAddTask trim e (s, db)))) (fresh_id e))
          = Some (JBool (\<not> isConnected s))
      \<and> stored_field ''syncStatus'' (db_get (TASKS (snd (handleAddTask trim e (s, db)))) (fresh_id e))
          = Some JUndefined)
   \<and> (selectedTaskId s = Some selected \<and> selected \<noteq> [] \<longrightarrow>
        stored_field ''needsSync''
          (db_get (EVIDENCE (snd (handleFileSelect e f (s, db)))) (''evidence-'' @ fresh_id e))
          = Some (JBool (\<not> isConnected s))
      \<and> stored_field ''syncStatus''
          (db_get (EVIDENCE (snd (handleFileSelect e f (s, db)))) (''evidence-'' @ fresh_id e))
          = Some (JStr ''pending''))
   \<and> (find (\<lambda>t. strict_eq (fld t ''id'') (JStr taskId)) (tasks s) \<noteq> None
        \<and> db_get (TASKS db) taskId = Some task \<and> fld task ''id'' = JStr taskId \<longrightarrow>
        stored_field ''needsSync'' (db_get (TASKS (snd (handleToggleComplete now taskId (s, db)))) taskId)
          = Some (JBool (\<not> isConnected s))
      \<and> stored_field ''syncStatus'' (db_get (TASKS (snd (handleToggleComplete now taskId (s, db)))) taskId)
          = Some (fld task ''syncStatus''))"
proof -
  have inv: "db_consistent db \<and> (local_edit a \<longrightarrow> \<not> isConnected s) \<longrightarrow>
      db_consistent (snd (step trim a (s, db)))"
  proof (cases a)
    case (AddTask e)
    then show ?thesis using handleAddTask_offline [of db s trim e] by simp
  next
    case (ToggleComplete now taskId)
    then show ?thesis using handleToggleComplete_offline [of db s now taskId] by simp
  next
    case (AddEvidence e f)
    then show ?thesis using handleFileSelect_offline [of db s e f] by simp
  next
    case (SyncTask now taskId u)
    then show ?thesis using syncTask_step [of db trim now taskId u s] by simp
  next
    case (SyncEvidence evidenceId u)
    then show ?thesis using syncEvidence_step [of db trim evidenceId u s] by simp
  qed
  have guard: "trim (title (newTask s)) = [] \<longrightarrow> handleAddTask trim e (s, db) = (s, db)"
    by (simp add: handleAddTask_def)
  show ?thesis
    using inv guard handleAddTask_writes [of trim s e db]
      handleFileSelect_writes [of s selected e f db]
      handleToggleComplete_writes [of taskId s db task now]
    by blast
qed

lemma sampleDb_consistent: "db_consistent sampleDb"
  by (simp add: db_consistent_def getTasks_def getAllEvidence_def db_getAll_def sampleDb_stores
      sync_consistent_def sample_sync_fields)

lemma not_consistent_task:
  "db_get (TASKS db) k = Some t \<Longrightarrow> fld t ''needsSync'' = JBool False \<Longrightarrow>
     fld t ''syncStatus'' \<noteq> JStr ''synced'' \<Longrightarrow> \<not> db_consistent db"
  using stored_task_consistent [of db k t] by (auto simp: sync_consistent_def)

lemma not_consistent_evidence:
  "db_get (EVIDENCE db) k = Some t \<Longrightarrow> fld t ''needsSync'' = JBool False \<Longrightarrow>
     fld t ''syncStatus'' \<noteq> JStr ''synced'' \<Longrightarrow> \<not> db_consistent db"
  using stored_evidence_consistent [of db k t] by (auto simp: sync_consistent_def)

theorem sync_consistency_preserved_witness:
  "db_consistent sampleDb
   \<and> local_edit (AddEvidence sampleClock sampleFile)
   \<and> \<not> isConnected (sampleScreen False)
   \<and> db_consistent (snd (step trim_ascii (AddEvidence sampleClock sampleFile) (sampleScreen False, sampleDb)))
   \<and> stored_field ''needsSync''
        (db_get (TASKS (snd (handleAddTask trim_ascii sampleClock (sampleScreen False, sampleDb)))) ''1735725600000'')
       = Some (JBool True)
   \<and> stored_field ''needsSync''
        (db_get (EVIDENCE (snd (handleFileSelect sampleClock sampleFile (sampleScreen False, sampleDb))))
           ''evidence-1735725600000'')
       = Some (JBool True)
   \<and> stored_field ''syncStatus''
        (db_get (TASKS (snd (handleToggleComplete sampleNow ''task-2'' (sampleScreen False, sampleDb))))
           ''task-2'')
       = Some (JStr ''synced'')"
proof -
  note inst = sync_consistency_preserved [where db = sampleDb
      and a = "AddEvidence sampleClock sampleFile" and s = "sampleScreen False"
      and e = sampleClock and f = sampleFile and selected = "''task-2''"
      and taskId = "''task-2''" and task = sampleTask2 and now = sampleNow
      and trim = trim_ascii]
  have nb: "trim_ascii (title (newTask (sampleScreen False))) = ''Update test cases''"
    by (simp add: sampleScreen_def trim_ascii_def ascii_space_def)
  have sel: "selectedTaskId (sampleScreen False) = Some ''task-2''" "''task-2'' \<noteq> []"
    by (simp_all add: sampleScreen_def)
  have off: "\<not> isConnected (sampleScreen False)" "fresh_id sampleClock = ''1735725600000''"
    by (simp_all add: sampleScreen_def sampleClock_def)
  from inst sampleDb_consistent nb sel off sampleScreen_has_task2 [of False] sampleDb_task2
    sampleTask2_id sample_sync_fields(4)
  show ?thesis by simp
qed

text \<open>
  The claim as it stands fails while online: a task added online is stored with
  \<open>needsSync\<close> false and no \<open>syncStatus\<close>, evidence added online with \<open>needsSync\<close> false and
  \<open>syncStatus\<close> pending.
\<close>

theorem online_creation_counterexample:
  "db_consistent sampleDb
   \<and> stored_field ''needsSync''
       (db_get (TASKS (snd (handleAddTask trim_ascii sampleClock (sampleScreen True, sampleDb)))) ''1735725600000'')
     = Some (JBool False)
   \<and> stored_field ''syncStatus''
       (db_get (TASKS (snd (handleAddTask trim_ascii sampleClock (sampleScreen True, sampleDb)))) ''1735725600000'')
     = Some JUndefined
   \<and> \<not> db_consistent (snd (handleAddTask trim_ascii sampleClock (sampleScreen True, sampleDb)))
   \<and> stored_field ''needsSync''
       (db_get (EVIDENCE (snd (handleFileSelect sampleClock sampleFile (sampleScreen True, sampleDb))))
          ''evidence-1735725600000'')
     = Some (JBool False)
   \<and> stored_field ''syncStatus''
       (db_get (EVIDENCE (snd (handleFileSelect sampleClock sampleFile (sampleScreen True, sampleDb))))
          ''evidence-1735725600000'')
     = Some (JStr ''pending'')
   \<and> \<not> db_consistent (snd (handleFileSelect sampleClock sampleFile (sampleScreen True, sampleDb)))"
proof -
  have nb: "trim_ascii (title (newTask (sampleScreen True))) \<noteq> []"
    by (simp add: sampleScreen_def trim_ascii_def ascii_space_def)
  have sel: "selectedTaskId (sampleScreen True) = Some ''task-2''" "''task-2'' \<noteq> []"
    by (simp_all add: sampleScreen_def)
  have on: "isConnected (sampleScreen True)" "fresh_id sampleClock = ''1735725600000''"
    by (simp_all add: sampleScreen_def sampleClock_def)
  have t: "stored_field ''needsSync''
       (db_get (TASKS (snd (handleAddTask trim_ascii sampleClock (sampleScreen True, sampleDb)))) ''1735725600000'')
     = Some (JBool False)"
    "stored_field ''syncStatus''
       (db_get (TASKS (snd (handleAddTask trim_ascii sampleClock (sampleScreen True, sampleDb)))) ''1735725600000'')
     = Some JUndefined"
    using handleAddTask_writes [where trim = trim_ascii and s = "sampleScreen True"
        and e = sampleClock and db = sampleDb, OF nb] on
    by simp_all
  have e: "stored_field ''needsSync''
       (db_get (EVIDENCE (snd (handleFileSelect sampleClock sampleFile (sampleScreen True, sampleDb))))
          ''evidence-1735725600000'')
     = Some (JBool False)"
    "stored_field ''syncStatus''
       (db_get (EVIDENCE (snd (handleFileSelect sampleClock sampleFile (sampleScreen True, sampleDb))))
          ''evidence-1735725600000'')
     = Some (JStr ''pending'')"
    using handleFileSelect_writes [OF sel, of sampleClock sampleFile sampleDb] on by simp_all
  from t obtain task
    where "db_get (TASKS (snd (handleAddTask trim_ascii sampleClock (sampleScreen True, sampleDb)))) ''1735725600000''
            = Some task" "fld task ''needsSync'' = JBool False" "fld task ''syncStatus'' = JUndefined"
    by (auto simp: stored_field_def)
  then have "\<not> db_consistent (snd (handleAddTask trim_ascii sampleClock (sampleScreen True, sampleDb)))"
    by (intro not_consistent_task [of _ "''1735725600000''" task]) simp_all
  moreover from e obtain ev
    where "db_get (EVIDENCE (snd (handleFileSelect sampleClock sampleFile (sampleScreen True, sampleDb))))
            ''evidence-1735725600000'' = Some ev"
      "fld ev ''needsSync'' = JBool False" "fld ev ''syncStatus'' = JStr ''pending''"
    by (auto simp: stored_field_def)
  then have "\<not> db_consistent (snd (handleFileSelect sampleClock sampleFile (sampleScreen True, sampleDb)))"
    by (intro not_consistent_evidence [of _ "''evidence-1735725600000''" ev]) simp_all
  ultimately show ?thesis
    using sampleDb_consistent t e by simp
qed

end
